theory Spec2Isabelle
  imports Complex_Main
begin

section \<open>The cafe ordering system: data model\<close>

text \<open>
  The development embeds \<^verbatim>\<open>cafe_ordering_system.py\<close>. Conventions:
  \<^item> Python \<^verbatim>\<open>int\<close> is \<open>int\<close>; \<^verbatim>\<open>str\<close> is \<open>string\<close>, restricted to ASCII text.
  \<^item> Python \<^verbatim>\<open>float\<close> is \<open>pyfloat\<close>, the IEEE binary64 numbers with their rounding.
  \<^item> An exception is a value \<open>Inl e\<close> of a sum type, a normal return is \<open>Inr v\<close>.
  \<^item> Objects that the program shares and assigns to (orders, order lines, bills) live
    in a store, at an address; a method takes the address of \<^verbatim>\<open>self\<close> and the state.
  \<^item> \<^verbatim>\<open>print\<close>, \<^verbatim>\<open>input\<close> and the calls of \<^verbatim>\<open>Observer.update\<close> act on the \<open>World\<close>
    that is part of the state.
\<close>

datatype py_error = AttributeError | IndexError | EOFError | OverflowError

subsection \<open>Floats\<close>

text \<open>
  A Python float is a finite binary64 number, kept as the rational it denotes, an
  infinity (\<open>Infinity True\<close> is the negative one) or a NaN. The sign of a zero is
  not kept: \<^verbatim>\<open>==\<close> does not tell the two zeros apart, and no function of the program
  divides by a total or prints one with its sign.
\<close>

datatype pyfloat = Finite rat | Infinity bool | NaN

text \<open>The integer nearest to \<open>x\<close>, a tie going to the even one.\<close>

definition round_half_even :: "rat \<Rightarrow> int" where
  "round_half_even x =
     (let f = \<lfloor>x\<rfloor>; d = x - of_int f in
      if d < 1/2 then f else if 1/2 < d then f + 1 else if even f then f else f + 1)"

text \<open>The number of bits of a positive integer, as \<^verbatim>\<open>int.bit_length\<close> has it.\<close>

function bit_length :: "int \<Rightarrow> nat" where
  "bit_length n = (if n \<le> 0 then 0 else Suc (bit_length (n div 2)))"
  by pat_completeness auto
termination
  by (relation "measure nat") auto

declare bit_length.simps [simp del]

text \<open>
  \<open>binade x\<close> is the exponent \<open>e\<close> with \<open>2 powi e \<le> x < 2 powi (e + 1)\<close>, for a
  positive \<open>x\<close>: the difference of the bit lengths of numerator and denominator, or
  one less.
\<close>

definition binade :: "rat \<Rightarrow> int" where
  "binade x =
     (case quotient_of x of
        (n, d) \<Rightarrow>
          let k = int (bit_length n) - int (bit_length d)
          in if 2 powi k \<le> x then k else k - 1)"

text \<open>
  \<open>binary64 x\<close> is the float nearest to the exact value \<open>x\<close>, a tie going to the even
  significand: 53 significant bits down to the exponent -1022, a fixed step of
  \<open>2 powi (- 1074)\<close> below, and an infinity from \<open>2 powi 1024\<close> on. It is the rounding of
  every arithmetic operation, and the value of a decimal literal of the program text.
\<close>

definition binary64 :: "rat \<Rightarrow> pyfloat" where
  "binary64 x =
     (if x = 0 then Finite 0
      else
        let a = \<bar>x\<bar>;
            q = max (binade a) (- 1022) - 52;
            r = of_int (round_half_even (a / 2 powi q)) * 2 powi q
        in if 2 powi 1024 \<le> r then Infinity (x < 0)
           else Finite (if x < 0 then - r else r))"

text \<open>
  The conversion of an \<^verbatim>\<open>int\<close> operand to a float, which raises \<^verbatim>\<open>OverflowError\<close>
  (\<^verbatim>\<open>int too large to convert to float\<close>) where the rounding would overflow.
\<close>

definition float_of_int :: "int \<Rightarrow> py_error + pyfloat" where
  "float_of_int n =
     (case binary64 (of_int n) of
        Finite x \<Rightarrow> Inr (Finite x)
      | Infinity b \<Rightarrow> Inl OverflowError
      | NaN \<Rightarrow> Inl OverflowError)"

text \<open>\<^verbatim>\<open>x * y\<close> and \<^verbatim>\<open>x + y\<close> on floats. Neither raises: an overflow gives an infinity.\<close>

fun fmul :: "pyfloat \<Rightarrow> pyfloat \<Rightarrow> pyfloat" where
  "fmul (Finite x) (Finite y) = binary64 (x * y)"
| "fmul (Finite x) (Infinity b) = (if x = 0 then NaN else Infinity (b \<noteq> (x < 0)))"
| "fmul (Infinity a) (Finite y) = (if y = 0 then NaN else Infinity (a \<noteq> (y < 0)))"
| "fmul (Infinity a) (Infinity b) = Infinity (a \<noteq> b)"
| "fmul NaN y = NaN"
| "fmul x NaN = NaN"

fun fadd :: "pyfloat \<Rightarrow> pyfloat \<Rightarrow> pyfloat" where
  "fadd (Finite x) (Finite y) = binary64 (x + y)"
| "fadd (Finite x) (Infinity b) = Infinity b"
| "fadd (Infinity a) (Finite y) = Infinity a"
| "fadd (Infinity a) (Infinity b) = (if a = b then Infinity a else NaN)"
| "fadd NaN y = NaN"
| "fadd x NaN = NaN"

text \<open>\<^verbatim>\<open>x == y\<close> on floats: a NaN is equal to nothing.\<close>

fun py_eq :: "pyfloat \<Rightarrow> pyfloat \<Rightarrow> bool" where
  "py_eq (Finite x) (Finite y) = (x = y)"
| "py_eq (Infinity a) (Infinity b) = (a = b)"
| "py_eq x y = False"

text \<open>
  The built-in \<^verbatim>\<open>sum\<close> over floats, from its start value, the integer 0. It adds the
  first float to 0. How it adds the floats that follow depends on the interpreter
  (CPython adds them from left to right up to version 3.11 and keeps a compensation
  term from 3.12 on), so that step is the parameter \<open>accumulate\<close>, which takes the sum
  so far and the floats still to add. The sum of no float is the integer 0, which the
  arithmetic that follows converts to the float zero.
\<close>

type_synonym accumulation = "pyfloat \<Rightarrow> pyfloat list \<Rightarrow> pyfloat"

definition py_sum :: "accumulation \<Rightarrow> pyfloat list \<Rightarrow> pyfloat" where
  "py_sum accumulate xs =
     (case xs of
        [] \<Rightarrow> Finite 0
      | x # rest \<Rightarrow>
          if rest = [] then fadd (Finite 0) x else accumulate (fadd (Finite 0) x) rest)"

text \<open>The accumulation of CPython up to 3.11.\<close>

definition left_to_right :: accumulation where
  "left_to_right f xs = foldl fadd f xs"

subsection \<open>Menu items\<close>

text \<open>
  \<^verbatim>\<open>class MenuItem\<close> with its subclasses \<^verbatim>\<open>FoodItem\<close> and \<^verbatim>\<open>DrinkItem\<close>; the
  constructor \<open>MenuItem\<close> is an instance of the base class itself. No method of the
  program assigns to a field of a menu item, so items are plain values.
\<close>

datatype MenuItem =
    MenuItem (item_id: int) (item_name: string) (item_price: pyfloat)
  | FoodItem (item_id: int) (item_name: string) (item_price: pyfloat)
  | DrinkItem (item_id: int) (item_name: string) (item_price: pyfloat) (drink_size: "string option")

subsection \<open>Menu\<close>

record Menu =
  items :: "MenuItem list"

text \<open>\<^verbatim>\<open>Menu.__init__\<close>\<close>

definition Menu_init :: Menu where
  "Menu_init = \<lparr>items = []\<rparr>"

text \<open>\<^verbatim>\<open>Menu.add_item\<close>: \<^verbatim>\<open>self.items.append(item)\<close>, with no test of any kind.\<close>

definition menu_add_item :: "Menu \<Rightarrow> MenuItem \<Rightarrow> Menu" where
  "menu_add_item m item = m\<lparr>items := items m @ [item]\<rparr>"

text \<open>\<^verbatim>\<open>Menu.remove_item\<close>: the list comprehension keeps the items of another id.\<close>

definition menu_remove_item :: "Menu \<Rightarrow> int \<Rightarrow> Menu" where
  "menu_remove_item m i = m\<lparr>items := filter (\<lambda>item. item_id item \<noteq> i) (items m)\<rparr>"

text \<open>
  \<^verbatim>\<open>Menu.get_item_by_id\<close>: the \<^verbatim>\<open>for\<close> loop over \<^verbatim>\<open>self.items\<close> is the recursion
  \<open>get_item_loop\<close>; \<open>None\<close> is Python's \<^verbatim>\<open>None\<close>.
\<close>

fun get_item_loop :: "MenuItem list \<Rightarrow> int \<Rightarrow> MenuItem option" where
  "get_item_loop [] i = None"
| "get_item_loop (item # rest) i = (if item_id item = i then Some item else get_item_loop rest i)"

definition get_item_by_id :: "Menu \<Rightarrow> int \<Rightarrow> MenuItem option" where
  "get_item_by_id m i = get_item_loop (items m) i"

subsection \<open>The world outside: terminal and observer calls\<close>

text \<open>
  A printed line is \<open>Text s\<close> when its text is known literally. Two lines hold a formatted
  value whose formatting is not modelled: \<open>Total_error e\<close> is
  \<^verbatim>\<open>there was an error calculating the total: {e}\<close>, and \<open>Payment_received a m\<close> is
  \<^verbatim>\<open>Payment of {a:.2f} received via {m}\<close> (with the pound sign before the amount).
  \<open>Prompt s\<close> is the prompt that \<^verbatim>\<open>input(s)\<close> writes before it reads.
\<close>

datatype printed =
    Text string
  | Prompt string
  | Total_error py_error
  | Payment_received rat string

text \<open>
  \<^verbatim>\<open>class Observer\<close> and its subclass \<^verbatim>\<open>OrderObserver\<close>. The number is the identity of
  the object: two observers of the same class are different objects.
\<close>

datatype Observer = Observer nat | OrderObserver nat

text \<open>
  \<open>stdin\<close> holds the lines not yet read, \<open>stdout\<close> the lines printed so far, and \<open>calls\<close>
  logs every invocation of an \<^verbatim>\<open>update\<close> method, with its receiver and its argument,
  in the order of the calls.
\<close>

record World =
  stdin :: "string list"
  stdout :: "printed list"
  calls :: "(Observer \<times> string) list"

definition print :: "printed \<Rightarrow> World \<Rightarrow> World" where
  "print l w = w\<lparr>stdout := stdout w @ [l]\<rparr>"

text \<open>
  \<^verbatim>\<open>Observer.update\<close> is \<^verbatim>\<open>pass\<close>; \<^verbatim>\<open>OrderObserver.update\<close> prints
  \<^verbatim>\<open>[Notification] {message}\<close>. Neither raises.
\<close>

fun update :: "Observer \<Rightarrow> string \<Rightarrow> World \<Rightarrow> World" where
  "update (Observer n) message w = w\<lparr>calls := calls w @ [(Observer n, message)]\<rparr>"
| "update (OrderObserver n) message w =
     print (Text (''[Notification] '' @ message))
       (w\<lparr>calls := calls w @ [(OrderObserver n, message)]\<rparr>)"

text \<open>The lines that one call of \<^verbatim>\<open>update\<close> prints, by the class of the receiver.\<close>

fun update_output :: "Observer \<Rightarrow> string \<Rightarrow> printed list" where
  "update_output (Observer n) message = []"
| "update_output (OrderObserver n) message = [Text (''[Notification] '' @ message)]"

subsection \<open>Subject\<close>

record Subject =
  observers :: "Observer list"

text \<open>\<^verbatim>\<open>Subject.attach\<close>: \<^verbatim>\<open>self._observers.append(observer)\<close>.\<close>

definition attach :: "'a Subject_scheme \<Rightarrow> Observer \<Rightarrow> 'a Subject_scheme" where
  "attach self observer = self\<lparr>observers := observers self @ [observer]\<rparr>"

text \<open>\<^verbatim>\<open>Subject.notify\<close>: the \<^verbatim>\<open>for\<close> loop over \<^verbatim>\<open>self._observers\<close>.\<close>

fun notify_loop :: "Observer list \<Rightarrow> string \<Rightarrow> World \<Rightarrow> World" where
  "notify_loop [] message w = w"
| "notify_loop (observer # rest) message w = notify_loop rest message (update observer message w)"

definition notify :: "'a Subject_scheme \<Rightarrow> string \<Rightarrow> World \<Rightarrow> World" where
  "notify self message w = notify_loop (observers self) message w"

subsection \<open>Order lines\<close>

text \<open>
  \<^verbatim>\<open>class OrderItem\<close>. The field \<open>menu_item\<close> is a reference: \<open>None\<close> is a line built
  with Python's \<^verbatim>\<open>None\<close> in place of a menu item, on which the attribute access of
  \<^verbatim>\<open>get_line_total\<close> raises \<^verbatim>\<open>AttributeError\<close>. The product converts the quantity
  to a float first, which raises \<^verbatim>\<open>OverflowError\<close> for a quantity too large.
\<close>

record OrderItem =
  orderitem_id :: int
  menu_item :: "MenuItem option"
  quantity :: int

definition get_line_total :: "OrderItem \<Rightarrow> py_error + pyfloat" where
  "get_line_total self =
     (case menu_item self of
        None \<Rightarrow> Inl AttributeError
      | Some m \<Rightarrow>
          (case float_of_int (quantity self) of
             Inl e \<Rightarrow> Inl e
           | Inr q \<Rightarrow> Inr (fmul (item_price m) q)))"

subsection \<open>Python lists\<close>

text \<open>
  \<^verbatim>\<open>xs[i]\<close> and \<^verbatim>\<open>xs.pop(i)\<close>: an index below zero counts from the end, and an index
  that is still out of range raises \<^verbatim>\<open>IndexError\<close>. \<open>py_pop\<close> returns the list that
  remains.
\<close>

definition py_position :: "'a list \<Rightarrow> int \<Rightarrow> nat option" where
  "py_position xs i =
     (if 0 \<le> i \<and> i < int (length xs) then Some (nat i)
      else if i < 0 \<and> 0 \<le> i + int (length xs) then Some (nat (i + int (length xs)))
      else None)"

definition py_getitem :: "'a list \<Rightarrow> int \<Rightarrow> py_error + 'a" where
  "py_getitem xs i = (case py_position xs i of None \<Rightarrow> Inl IndexError | Some k \<Rightarrow> Inr (xs ! k))"

definition py_pop :: "'a list \<Rightarrow> int \<Rightarrow> py_error + 'a list" where
  "py_pop xs i =
     (case py_position xs i of
        None \<Rightarrow> Inl IndexError
      | Some k \<Rightarrow> Inr (take k xs @ drop (Suc k) xs))"

subsection \<open>Orders, bills and the store\<close>

text \<open>
  The list \<open>order_items\<close> of an order holds references to \<^verbatim>\<open>OrderItem\<close> objects, and
  one object may stand at several positions, or in several orders. A \<^verbatim>\<open>Bill\<close> keeps
  a reference to its order, not a copy.
\<close>

type_synonym ref = nat

type_synonym date = "int \<times> int \<times> int"

record Order = Subject +
  order_id :: int
  order_date :: date
  order_status :: string
  order_items :: "ref list"

record Bill =
  bill_id :: int
  order :: ref
  bill_total :: pyfloat

text \<open>
  The state of the program: the object at each address, by class, and the world. A
  constructor is given the address of the new object.
\<close>

record State =
  order_lines :: "ref \<Rightarrow> OrderItem"
  orders :: "ref \<Rightarrow> Order"
  bills :: "ref \<Rightarrow> Bill"
  world :: World

definition TAX_RATE :: pyfloat where
  "TAX_RATE = binary64 0.20"

text \<open>\<^verbatim>\<open>OrderItem.__init__\<close> and \<^verbatim>\<open>Order.__init__\<close>\<close>

definition OrderItem_init :: "ref \<Rightarrow> int \<Rightarrow> MenuItem option \<Rightarrow> int \<Rightarrow> State \<Rightarrow> State" where
  "OrderItem_init self oid item qty s =
     s\<lparr>order_lines := (order_lines s)
          (self := \<lparr>orderitem_id = oid, menu_item = item, quantity = qty\<rparr>)\<rparr>"

definition new_Order :: "int \<Rightarrow> date \<Rightarrow> string \<Rightarrow> Order" where
  "new_Order oid odate status =
     \<lparr>observers = [], order_id = oid, order_date = odate, order_status = status, order_items = []\<rparr>"

definition Order_init :: "ref \<Rightarrow> int \<Rightarrow> date \<Rightarrow> string \<Rightarrow> State \<Rightarrow> State" where
  "Order_init self oid odate status s = s\<lparr>orders := (orders s)(self := new_Order oid odate status)\<rparr>"

text \<open>\<^verbatim>\<open>Order.add_item\<close>, with the address of the line to add.\<close>

definition add_item :: "ref \<Rightarrow> ref \<Rightarrow> State \<Rightarrow> State" where
  "add_item self order_item s =
     (let this = (orders s self)\<lparr>order_items := order_items (orders s self) @ [order_item]\<rparr>
      in s\<lparr>orders := (orders s)(self := this),
           world := notify this ''Item added to order'' (world s)\<rparr>)"

text \<open>
  \<^verbatim>\<open>Order.remove_item\<close>. The result is \<open>Inl e\<close> when the method raises \<open>e\<close>, with the
  state as it is at that point. \<^verbatim>\<open>order_item.quantity -= qty\<close> assigns to the object
  that the list refers to at \<open>index\<close>, wherever else that object stands.
\<close>

definition remove_item :: "ref \<Rightarrow> int \<Rightarrow> int \<Rightarrow> State \<Rightarrow> (py_error + unit) \<times> State" where
  "remove_item self list_number qty s =
     (let index = list_number - 1; this = orders s self in
      if 0 \<le> index \<and> index < int (length (order_items this)) then
        (case py_getitem (order_items this) index of
           Inl e \<Rightarrow> (Inl e, s)
         | Inr order_item \<Rightarrow>
             if qty \<ge> quantity (order_lines s order_item) then
               (case py_pop (order_items this) index of
                  Inl e \<Rightarrow> (Inl e, s)
                | Inr remaining \<Rightarrow>
                    (Inr (), s\<lparr>orders := (orders s)(self := this\<lparr>order_items := remaining\<rparr>),
                               world := notify this ''Item has been removed from your order''
                                          (world s)\<rparr>))
             else
               (Inr (), s\<lparr>order_lines := (order_lines s)
                            (order_item := (order_lines s order_item)
                               \<lparr>quantity := quantity (order_lines s order_item) - qty\<rparr>),
                          world := notify this ''the item quantity has been updated'' (world s)\<rparr>))
      else (Inr (), s))"

text \<open>
  \<^verbatim>\<open>Order.get_total\<close>. \<open>line_totals\<close> is the generator \<^verbatim>\<open>item.get_line_total() for
  item in self.order_items\<close> as \<^verbatim>\<open>sum\<close> consumes it: the first line that raises ends
  it. The \<^verbatim>\<open>except Exception\<close> handler prints and returns 0.0.
\<close>

fun line_totals :: "(ref \<Rightarrow> OrderItem) \<Rightarrow> ref list \<Rightarrow> py_error + pyfloat list" where
  "line_totals h [] = Inr []"
| "line_totals h (item # rest) =
     (case get_line_total (h item) of
        Inl e \<Rightarrow> Inl e
      | Inr v \<Rightarrow> (case line_totals h rest of Inl e \<Rightarrow> Inl e | Inr vs \<Rightarrow> Inr (v # vs)))"

definition get_total :: "accumulation \<Rightarrow> ref \<Rightarrow> State \<Rightarrow> (py_error + pyfloat) \<times> State" where
  "get_total accumulate self s =
     (case line_totals (order_lines s) (order_items (orders s self)) of
        Inr totals \<Rightarrow>
          (let subtotal = py_sum accumulate totals
           in (Inr (fadd subtotal (fmul subtotal TAX_RATE)), s))
      | Inl e \<Rightarrow> (Inr (Finite 0), s\<lparr>world := print (Total_error e) (world s)\<rparr>))"

text \<open>\<^verbatim>\<open>Staff.update_order_status\<close> (the staff object itself is not used by the method).\<close>

definition update_order_status :: "ref \<Rightarrow> string \<Rightarrow> State \<Rightarrow> State" where
  "update_order_status order_ref new_status s =
     (let this = (orders s order_ref)\<lparr>order_status := new_status\<rparr>
      in s\<lparr>orders := (orders s)(order_ref := this),
           world := notify this
             (''Order status updated to '' @ [CHR 0x27] @ new_status @ [CHR 0x27]) (world s)\<rparr>)"

text \<open>
  \<^verbatim>\<open>Bill.__init__\<close>, for the new bill object at address \<open>self\<close>: the call of
  \<^verbatim>\<open>order.get_total()\<close> happens here and its value is stored.
\<close>

definition Bill_init ::
  "accumulation \<Rightarrow> ref \<Rightarrow> int \<Rightarrow> ref \<Rightarrow> State \<Rightarrow> (py_error + unit) \<times> State" where
  "Bill_init accumulate self bid r s =
     (case get_total accumulate r s of
        (Inl e, s') \<Rightarrow> (Inl e, s')
      | (Inr amount, s') \<Rightarrow>
          (Inr (), s'\<lparr>bills := (bills s')
                       (self := \<lparr>bill_id = bid, order = r, bill_total = amount\<rparr>)\<rparr>))"

text \<open>
  The calls that change an order or one of its lines: \<^verbatim>\<open>attach\<close>, the construction
  of an \<^verbatim>\<open>OrderItem\<close>, \<^verbatim>\<open>add_item\<close>, \<^verbatim>\<open>remove_item\<close> and
  \<^verbatim>\<open>Staff.update_order_status\<close>, each with the address of its order. A sequence of
  calls stops at the first one that raises.
\<close>

datatype mutation =
    Attach ref Observer
  | New_OrderItem ref int "MenuItem option" int
  | Add_item ref ref
  | Remove_item ref int int
  | Update_status ref string

fun mutate :: "mutation \<Rightarrow> State \<Rightarrow> (py_error + unit) \<times> State" where
  "mutate (Attach r ob) s = (Inr (), s\<lparr>orders := (orders s)(r := attach (orders s r) ob)\<rparr>)"
| "mutate (New_OrderItem line oid item qty) s = (Inr (), OrderItem_init line oid item qty s)"
| "mutate (Add_item r line) s = (Inr (), add_item r line s)"
| "mutate (Remove_item r list_number qty) s = remove_item r list_number qty s"
| "mutate (Update_status r new_status) s = (Inr (), update_order_status r new_status s)"

fun mutate_all :: "mutation list \<Rightarrow> State \<Rightarrow> (py_error + unit) \<times> State" where
  "mutate_all [] s = (Inr (), s)"
| "mutate_all (m # rest) s =
     (case mutate m s of
        (Inl e, s') \<Rightarrow> (Inl e, s')
      | (Inr u, s') \<Rightarrow> mutate_all rest s')"

subsection \<open>Payment\<close>

record Payment =
  payment_id :: string
  payment_method :: string
  payment_amount :: rat

text \<open>\<^verbatim>\<open>str.upper\<close> on ASCII text.\<close>

definition upper_char :: "char \<Rightarrow> char" where
  "upper_char c =
     (case map_of (zip ''abcdefghijklmnopqrstuvwxyz'' ''ABCDEFGHIJKLMNOPQRSTUVWXYZ'') c of
        None \<Rightarrow> c
      | Some u \<Rightarrow> u)"

definition upper :: "string \<Rightarrow> string" where
  "upper s = map upper_char s"

text \<open>
  \<^verbatim>\<open>input(prompt)\<close> writes the prompt and reads the next line; at the end of the input
  it raises \<^verbatim>\<open>EOFError\<close>.
\<close>

definition input :: "string \<Rightarrow> World \<Rightarrow> (py_error + string) \<times> World" where
  "input prompt w =
     (let w1 = print (Prompt prompt) w in
      case stdin w1 of
        [] \<Rightarrow> (Inl EOFError, w1)
      | line # rest \<Rightarrow> (Inr line, w1\<lparr>stdin := rest\<rparr>))"

text \<open>The prompt of \<^verbatim>\<open>Payment.process_payment\<close>.\<close>

definition method_prompt :: string where
  "method_prompt = ''Invalid payment method. Please enter 'Cash' or 'Card': ''"

text \<open>The \<^verbatim>\<open>while\<close> loop of \<^verbatim>\<open>Payment.process_payment\<close>: every round reads one line.\<close>

function payment_method_loop :: "Payment \<Rightarrow> World \<Rightarrow> (py_error + unit) \<times> Payment \<times> World" where
  "payment_method_loop self w =
     (if upper (payment_method self) \<notin> set [''CASH'', ''CARD''] then
        (case input method_prompt w of
           (Inl e, w') \<Rightarrow> (Inl e, self, w')
         | (Inr line, w') \<Rightarrow> payment_method_loop (self\<lparr>payment_method := line\<rparr>) w')
      else (Inr (), self, w))"
  by pat_completeness auto
termination
  by (relation "measure (\<lambda>(self, w). length (stdin w))")
    (auto simp: input_def print_def Let_def split: list.splits)

declare payment_method_loop.simps [simp del]

definition process_payment :: "Payment \<Rightarrow> World \<Rightarrow> (py_error + unit) \<times> Payment \<times> World" where
  "process_payment self w =
     (if payment_amount self \<le> 0 then
        (Inr (), self, print (Text ''Invalid payment amount. Cannot process payment.'') w)
      else
        (case payment_method_loop self w of
           (Inl e, self', w') \<Rightarrow> (Inl e, self', w')
         | (Inr u, self', w') \<Rightarrow>
             (Inr (), self',
              print (Payment_received (payment_amount self') (payment_method self')) w')))"

subsection \<open>The total as the specification words it\<close>

text \<open>
  The specification gives the total as \<^verbatim>\<open>round(sum(price_i * qty_i) * 1.20, 2)\<close> over
  the current lines and compares it with \<^verbatim>\<open>==\<close>. \<open>line_value\<close> is \<^verbatim>\<open>price_i * qty_i\<close>
  for a line that has a menu item and a quantity that converts. \<open>py_round2\<close> is
  Python's \<^verbatim>\<open>round(x, 2)\<close>: the exact value of the float goes to two decimals, a tie to
  the even neighbour, and the decimal to the nearest float. \<open>spec_total\<close> follows the
  words of the specification, to be compared with \<open>get_total\<close>, which follows the code.
\<close>

definition line_value :: "OrderItem \<Rightarrow> pyfloat" where
  "line_value line = fmul (item_price (the (menu_item line))) (projr (float_of_int (quantity line)))"

fun py_round2 :: "pyfloat \<Rightarrow> pyfloat" where
  "py_round2 (Finite x) = binary64 (of_int (round_half_even (x * 100)) / 100)"
| "py_round2 (Infinity b) = Infinity b"
| "py_round2 NaN = NaN"

definition spec_total :: "accumulation \<Rightarrow> ref \<Rightarrow> State \<Rightarrow> pyfloat" where
  "spec_total accumulate self s =
     py_round2 (fmul (py_sum accumulate
                        (map (\<lambda>line. line_value (order_lines s line)) (order_items (orders s self))))
                  (binary64 1.20))"

subsection \<open>Payment methods as the specification words them\<close>

text \<open>
  The specification accepts a method equal to \<^verbatim>\<open>Cash\<close> or \<^verbatim>\<open>Card\<close> under
  case-insensitive comparison: two strings that agree once put in upper case.
\<close>

definition caseless_eq :: "string \<Rightarrow> string \<Rightarrow> bool" where
  "caseless_eq s t \<longleftrightarrow> upper s = upper t"

definition cash_or_card :: "string \<Rightarrow> bool" where
  "cash_or_card m \<longleftrightarrow> caseless_eq m ''Cash'' \<or> caseless_eq m ''Card''"

subsection \<open>Example objects\<close>

text \<open>Three menu items, and the menu of the unit tests.\<close>

definition sandwich :: MenuItem where
  "sandwich = FoodItem 1 ''Chuna Sandwich'' (binary64 3.50)"

definition cake :: MenuItem where
  "cake = FoodItem 10 ''Cake'' (binary64 3.00)"

definition cookie :: MenuItem where
  "cookie = FoodItem 9 ''Cookie'' (binary64 0.99)"

definition example_menu :: Menu where
  "example_menu =
     menu_add_item
       (menu_add_item Menu_init (FoodItem 1 ''Chuna Sandwich'' (binary64 3.50)))
       (DrinkItem 2 ''Latte'' (binary64 2.80) (Some ''Medium''))"

text \<open>A world with nothing to read and nothing printed yet.\<close>

definition quiet_world :: World where
  "quiet_world = \<lparr>stdin = [], stdout = [], calls = []\<rparr>"

text \<open>A state whose addresses all hold an object without content.\<close>

definition empty_state :: State where
  "empty_state =
     \<lparr>order_lines = (\<lambda>r. \<lparr>orderitem_id = 0, menu_item = None, quantity = 0\<rparr>),
      orders = (\<lambda>r. new_Order 0 (2025, 1, 1) ''Pending''),
      bills = (\<lambda>r. \<lparr>bill_id = 0, order = 0, bill_total = Finite 0\<rparr>),
      world = quiet_world\<rparr>"

text \<open>
  The state that holds one order, at address 0, with one observer and the lines at the
  given addresses, and the given line objects at the addresses 0 and 1.
\<close>

definition one_order :: "ref list \<Rightarrow> OrderItem \<Rightarrow> OrderItem \<Rightarrow> State" where
  "one_order lines line0 line1 =
     empty_state
       \<lparr>order_lines := (order_lines empty_state)(0 := line0, 1 := line1),
        orders := (orders empty_state)
          (0 := (new_Order 1 (2025, 1, 1) ''Pending'')
                  \<lparr>observers := [OrderObserver 0], order_items := lines\<rparr>)\<rparr>"

definition line_of :: "MenuItem option \<Rightarrow> int \<Rightarrow> OrderItem" where
  "line_of item qty = \<lparr>orderitem_id = 1, menu_item = item, quantity = qty\<rparr>"

text \<open>An order of three sandwiches, and one whose two positions hold that same line object.\<close>

definition example_state :: State where
  "example_state = one_order [0] (line_of (Some sandwich) 3) (line_of None 0)"

definition shared_state :: State where
  "shared_state = one_order [0, 0] (line_of (Some sandwich) 3) (line_of None 0)"

text \<open>The order of the unit test on totals: two sandwiches at 3.50.\<close>

definition test_state :: State where
  "test_state = one_order [0] (line_of (Some sandwich) 2) (line_of None 0)"

text \<open>An order of one cookie at 0.99, whose price with the tax has a third decimal.\<close>

definition cookie_state :: State where
  "cookie_state = one_order [0] (line_of (Some cookie) 1) (line_of None 0)"

text \<open>
  Two orders with a line that faults: a second line that refers to no menu item, and
  a quantity of \<open>10 ^ 400\<close> sandwiches, too large for a float.
\<close>

definition faulty_state :: State where
  "faulty_state = one_order [0, 1] (line_of (Some sandwich) 2) (line_of None 1)"

definition huge_quantity :: int where
  "huge_quantity = 10 ^ 400"

definition huge_state :: State where
  "huge_state = one_order [0] (line_of (Some sandwich) huge_quantity) (line_of None 0)"

text \<open>The calls that build a line of one cake at address 1 and add it to the order at 0.\<close>

definition add_cake :: "mutation list" where
  "add_cake = [New_OrderItem 1 2 (Some cake) 1, Add_item 0 1]"

text \<open>An order on which the same observer object was attached two times.\<close>

definition twice_attached :: Order where
  "twice_attached =
     attach (attach (new_Order 2 (2025, 1, 1) ''Pending'') (OrderObserver 0)) (OrderObserver 0)"

text \<open>Three observers to attach, two of one class.\<close>

definition three_observers :: "Observer list" where
  "three_observers = [OrderObserver 1, Observer 2, OrderObserver 3]"

text \<open>Payments: a zero amount, a valid method in lower case, an unknown method.\<close>

definition zero_payment :: Payment where
  "zero_payment = \<lparr>payment_id = ''PAY001'', payment_method = ''Cash'', payment_amount = 0\<rparr>"

definition cash_payment :: Payment where
  "cash_payment = \<lparr>payment_id = ''PAY001'', payment_method = ''cash'', payment_amount = 5\<rparr>"

definition bitcoin_payment :: Payment where
  "bitcoin_payment = \<lparr>payment_id = ''PAY001'', payment_method = ''Bitcoin'', payment_amount = 5\<rparr>"

section \<open>Rounding to binary64\<close>

lemma round_half_even_nearest:
  assumes "\<bar>x - of_int m\<bar> < 1/2"
  shows "round_half_even x = m"
proof -
  have "- (1/2) < x - of_int m" and "x - of_int m < 1/2"
    using assms by (simp_all only: abs_less_iff) linarith+
  then have "of_int (m - 1) \<le> x" and "x < of_int (m + 1)"
    by simp_all
  then have "m - 1 \<le> \<lfloor>x\<rfloor>" and "\<lfloor>x\<rfloor> < m + 1"
    by (simp_all only: le_floor_iff floor_less_iff)
  then have "\<lfloor>x\<rfloor> = m \<or> \<lfloor>x\<rfloor> = m - 1"
    by auto
  then show ?thesis
  proof
    assume f: "\<lfloor>x\<rfloor> = m"
    then have "of_int m \<le> x" by (metis of_int_floor_le)
    with assms have "x - of_int m < 1/2" by simp
    with f show ?thesis by (simp add: round_half_even_def Let_def)
  next
    assume f: "\<lfloor>x\<rfloor> = m - 1"
    have "x < of_int m" using f by linarith
    with assms have "1/2 < x - of_int (m - 1)" by (simp add: abs_less_iff)
    with f show ?thesis by (simp add: round_half_even_def Let_def)
  qed
qed

lemma round_half_even_ge_floor: "\<lfloor>x\<rfloor> \<le> round_half_even x"
  by (simp add: round_half_even_def Let_def)

lemma bit_length_bounds:
  "0 < n \<Longrightarrow> 2 ^ (bit_length n - 1) \<le> n \<and> n < 2 ^ bit_length n"
proof (induction n rule: bit_length.induct)
  case (1 n)
  show ?case
  proof (cases "n div 2 \<le> 0")
    case True
    with "1.prems" have "n = 1" by simp
    then show ?thesis
      by (simp add: bit_length.simps [of 1] bit_length.simps [of 0])
  next
    case False
    define b where "b = bit_length (n div 2)"
    have len: "bit_length n = Suc b"
      using "1.prems" by (simp add: bit_length.simps [of n] b_def)
    from False "1.prems" "1.IH" have ih: "2 ^ (b - 1) \<le> n div 2" "n div 2 < 2 ^ b"
      by (simp_all add: b_def)
    have b0: "0 < b"
      using False by (simp add: b_def bit_length.simps [of "n div 2"])
    then have "(2::int) ^ b = 2 * 2 ^ (b - 1)"
      by (cases b) simp_all
    with ih(1) have lower: "2 ^ b \<le> n" by linarith
    from ih(2) have "n < 2 * 2 ^ b" by linarith
    with lower show ?thesis by (simp add: len)
  qed
qed

lemma bit_length_pos: "0 < n \<Longrightarrow> 0 < bit_length n"
  by (simp add: bit_length.simps [of n])

lemma binade_bounds:
  assumes "0 < x"
  shows "2 powi (binade x) \<le> x \<and> x < 2 powi (binade x + 1)"
proof -
  obtain n d where q: "quotient_of x = (n, d)" by (cases "quotient_of x")
  have d: "0 < d" using q by (rule quotient_of_denom_pos)
  have x: "x = of_int n / of_int d" using q by (rule quotient_of_div)
  have n: "0 < n" using assms d x by (simp add: zero_less_divide_iff)
  define a where "a = bit_length n"
  define b where "b = bit_length d"
  have a0: "0 < a" using n by (simp add: a_def bit_length_pos)
  have b0: "0 < b" using d by (simp add: b_def bit_length_pos)
  have na: "(2::rat) ^ (a - 1) \<le> of_int n" "of_int n < (2::rat) ^ a"
  proof -
    have "(2::int) ^ (a - 1) \<le> n" "n < (2::int) ^ a"
      using bit_length_bounds [OF n] by (simp_all add: a_def)
    then have "of_int ((2::int) ^ (a - 1)) \<le> (of_int n :: rat)"
      and "(of_int n :: rat) < of_int ((2::int) ^ a)"
      by (simp_all only: of_int_le_iff of_int_less_iff)
    then show "(2::rat) ^ (a - 1) \<le> of_int n" "of_int n < (2::rat) ^ a"
      by simp_all
  qed
  have db: "(2::rat) ^ (b - 1) \<le> of_int d" "of_int d < (2::rat) ^ b"
  proof -
    have "(2::int) ^ (b - 1) \<le> d" "d < (2::int) ^ b"
      using bit_length_bounds [OF d] by (simp_all add: b_def)
    then have "of_int ((2::int) ^ (b - 1)) \<le> (of_int d :: rat)"
      and "(of_int d :: rat) < of_int ((2::int) ^ b)"
      by (simp_all only: of_int_le_iff of_int_less_iff)
    then show "(2::rat) ^ (b - 1) \<le> of_int d" "of_int d < (2::rat) ^ b"
      by simp_all
  qed
  define k where "k = int a - int b"
  have dpos: "(0::rat) < of_int d" using d by simp
  have upper: "x < 2 powi (k + 1)"
  proof -
    have "(2::rat) powi (k + 1) = 2 ^ a / 2 ^ (b - 1)"
    proof -
      have "k + 1 = int a - int (b - 1)" using b0 by (simp add: k_def)
      then show ?thesis by (simp add: power_int_diff)
    qed
    moreover have "of_int n / of_int d < (2::rat) ^ a / 2 ^ (b - 1)"
      using na(2) db(1) dpos n by (intro frac_less) simp_all
    ultimately show ?thesis by (simp add: x)
  qed
  have lower: "2 powi (k - 1) < x"
  proof -
    have "(2::rat) powi (k - 1) = 2 ^ (a - 1) / 2 ^ b"
    proof -
      have "k - 1 = int (a - 1) - int b" using a0 by (simp add: k_def)
      then show ?thesis by (simp add: power_int_diff)
    qed
    moreover have "(2::rat) ^ (a - 1) / 2 ^ b < of_int n / of_int d"
      using na(1) db(2) dpos n by (intro frac_less2) simp_all
    ultimately show ?thesis by (simp add: x)
  qed
  have bin: "binade x = (if 2 powi k \<le> x then k else k - 1)"
    by (simp add: binade_def q Let_def k_def a_def b_def)
  show ?thesis
  proof (cases "2 powi k \<le> x")
    case True
    with bin upper show ?thesis by simp
  next
    case False
    with bin lower show ?thesis by simp
  qed
qed

lemma binade_eq:
  assumes "2 powi e \<le> x" and "x < 2 powi (e + 1)"
  shows "binade x = e"
proof -
  have "(0::rat) < 2 powi e" by (simp add: zero_less_power_int)
  then have "0 < x" using assms(1) by (rule less_le_trans)
  from binade_bounds [OF this] have b: "2 powi (binade x) \<le> x" "x < 2 powi (binade x + 1)"
    by simp_all
  have lt: "(2::rat) powi i < 2 powi j \<Longrightarrow> i < j" for i j :: int
    using power_int_increasing [of j i "2::rat"] by (cases "i < j") auto
  have "(2::rat) powi e < 2 powi (binade x + 1)" using assms(1) b(2) by simp
  then have 1: "e < binade x + 1" by (rule lt)
  have "(2::rat) powi (binade x) < 2 powi (e + 1)" using assms(2) b(1) by simp
  then have 2: "binade x < e + 1" by (rule lt)
  from 1 2 show ?thesis by simp
qed

lemma binary64_positive:
  assumes "0 < x"
  shows "binary64 x =
     (if (2::rat) powi 1024 \<le> of_int (round_half_even (x / 2 powi (max (binade x) (- 1022) - 52)))
            * 2 powi (max (binade x) (- 1022) - 52)
      then Infinity False
      else Finite (of_int (round_half_even (x / 2 powi (max (binade x) (- 1022) - 52)))
            * 2 powi (max (binade x) (- 1022) - 52)))"
proof -
  have "x \<noteq> 0" "\<bar>x\<bar> = x" "\<not> x < 0" using assms by simp_all
  then show ?thesis
    unfolding binary64_def Let_def by (simp only: if_False)
qed

lemma binary64_nearest:
  assumes "2 powi e \<le> x" and "x < 2 powi (e + 1)" and "- 1022 \<le> e"
    and "\<bar>x / 2 powi (e - 52) - of_int m\<bar> < 1/2"
    and "of_int m * 2 powi (e - 52) < (2::rat) powi 1024"
  shows "binary64 x = Finite (of_int m * 2 powi (e - 52))"
proof -
  have "(0::rat) < 2 powi e" by (simp add: zero_less_power_int)
  then have pos: "0 < x" using assms(1) by (rule less_le_trans)
  have bin: "binade x = e"
    using assms(1,2) by (rule binade_eq)
  have q: "max e (- 1022) - 52 = e - 52"
    using assms(3) by simp
  have m: "round_half_even (x / 2 powi (e - 52)) = m"
    using assms(4) by (rule round_half_even_nearest)
  have "\<not> (2::rat) powi 1024 \<le> of_int m * 2 powi (e - 52)"
    using assms(5) by (simp only: not_le)
  then show ?thesis
    unfolding binary64_positive [OF pos] bin q m by (simp only: if_False)
qed

lemma binary64_overflow:
  assumes "2 powi 1024 \<le> x"
  shows "binary64 x = Infinity False"
proof -
  have "(0::rat) < 2 powi 1024" by (simp add: zero_less_power_int)
  then have pos: "0 < x" using assms by (rule less_le_trans)
  define e where "e = binade x"
  have b: "2 powi e \<le> x" "x < 2 powi (e + 1)"
    using binade_bounds [OF pos] by (simp_all only: e_def)
  have e: "1024 \<le> e"
  proof (rule ccontr)
    assume "\<not> 1024 \<le> e"
    then have "e + 1 \<le> 1024" by simp
    then have "(2::rat) powi (e + 1) \<le> 2 powi 1024"
      by (intro power_int_increasing) simp_all
    with b(2) assms show False by linarith
  qed
  have q: "max e (- 1022) - 52 = e - 52" using e by simp
  define y where "y = x / 2 powi (e - 52)"
  define c :: rat where "c = 2 ^ 52"
  have p: "(0::rat) < 2 powi (e - 52)" by (simp add: zero_less_power_int)
  have split: "(2::rat) powi e = c * 2 powi (e - 52)"
  proof -
    have "(2::rat) powi (52 + (e - 52)) = 2 powi 52 * 2 powi (e - 52)"
      by (rule power_int_add) simp
    then show ?thesis by (simp add: c_def)
  qed
  have "c * 2 powi (e - 52) \<le> x" using b(1) by (simp only: split)
  then have "c \<le> y" using p by (simp add: y_def pos_le_divide_eq)
  then have "of_int (2 ^ 52) \<le> y" by (simp add: c_def)
  then have "2 ^ 52 \<le> \<lfloor>y\<rfloor>" by (simp only: le_floor_iff)
  then have "2 ^ 52 \<le> round_half_even y"
    using round_half_even_ge_floor [of y] by (rule order_trans)
  then have "(of_int (2 ^ 52) :: rat) \<le> of_int (round_half_even y)"
    by (simp only: of_int_le_iff)
  then have "c \<le> of_int (round_half_even y)" by (simp add: c_def)
  then have "c * 2 powi (e - 52) \<le> of_int (round_half_even y) * (2::rat) powi (e - 52)"
    using p by (intro mult_right_mono) simp_all
  then have "2 powi e \<le> of_int (round_half_even y) * (2::rat) powi (e - 52)"
    by (simp only: split)
  moreover have "(2::rat) powi 1024 \<le> 2 powi e"
    using e by (intro power_int_increasing) simp_all
  ultimately have "(2::rat) powi 1024 \<le> of_int (round_half_even y) * 2 powi (e - 52)"
    by (rule order_trans [rotated])
  then show ?thesis
    unfolding binary64_positive [OF pos] e_def [symmetric] q y_def [symmetric] by (simp only: if_True)
qed

section \<open>Menu lookup\<close>

lemma get_item_loop_None: "get_item_loop xs i = None \<longleftrightarrow> i \<notin> item_id ` set xs"
  by (induction xs) auto

lemma get_item_loop_Some:
  "get_item_loop xs i = Some item \<Longrightarrow> item \<in> set xs \<and> item_id item = i"
  by (induction xs) (auto split: if_splits)

lemma get_item_loop_first:
  "get_item_loop xs i = Some item \<longleftrightarrow>
     (\<exists>k < length xs. xs ! k = item \<and> item_id item = i \<and> (\<forall>j < k. item_id (xs ! j) \<noteq> i))"
proof (induction xs)
  case Nil
  then show ?case by simp
next
  case (Cons x xs)
  show ?case
  proof (cases "item_id x = i")
    case True
    have "(\<exists>k < length (x # xs). (x # xs) ! k = item \<and> item_id item = i
            \<and> (\<forall>j < k. item_id ((x # xs) ! j) \<noteq> i)) \<longleftrightarrow> x = item"
    proof
      assume "\<exists>k < length (x # xs). (x # xs) ! k = item \<and> item_id item = i
            \<and> (\<forall>j < k. item_id ((x # xs) ! j) \<noteq> i)"
      then obtain k where k: "(x # xs) ! k = item" "\<forall>j < k. item_id ((x # xs) ! j) \<noteq> i"
        by blast
      have "k = 0"
      proof (rule ccontr)
        assume "k \<noteq> 0"
        then have "0 < k" by simp
        with k(2) have "item_id ((x # xs) ! 0) \<noteq> i" by blast
        with True show False by simp
      qed
      with k(1) show "x = item" by simp
    next
      assume "x = item"
      with True have "(x # xs) ! 0 = item \<and> item_id item = i
            \<and> (\<forall>j < 0. item_id ((x # xs) ! j) \<noteq> i)" by simp
      then show "\<exists>k < length (x # xs). (x # xs) ! k = item \<and> item_id item = i
            \<and> (\<forall>j < k. item_id ((x # xs) ! j) \<noteq> i)" by (intro exI[of _ 0]) simp
    qed
    with True show ?thesis by auto
  next
    case False
    have "(\<exists>k < length (x # xs). (x # xs) ! k = item \<and> item_id item = i
            \<and> (\<forall>j < k. item_id ((x # xs) ! j) \<noteq> i)) \<longleftrightarrow>
          (\<exists>k < length xs. xs ! k = item \<and> item_id item = i \<and> (\<forall>j < k. item_id (xs ! j) \<noteq> i))"
      (is "?L \<longleftrightarrow> ?R")
    proof
      assume ?L
      then obtain k where k: "k < length (x # xs)" "(x # xs) ! k = item" "item_id item = i"
        "\<forall>j < k. item_id ((x # xs) ! j) \<noteq> i" by blast
      from k(2,3) False have "k \<noteq> 0" by (cases k) auto
      then obtain k' where k': "k = Suc k'" by (cases k) auto
      have "\<forall>j < k'. item_id (xs ! j) \<noteq> i"
      proof (intro allI impI)
        fix j assume "j < k'"
        then have "Suc j < k" using k' by simp
        with k(4) have "item_id ((x # xs) ! Suc j) \<noteq> i" by blast
        then show "item_id (xs ! j) \<noteq> i" by simp
      qed
      with k k' show ?R by (intro exI[of _ k']) simp
    next
      assume ?R
      then obtain k where k: "k < length xs" "xs ! k = item" "item_id item = i"
        "\<forall>j < k. item_id (xs ! j) \<noteq> i" by blast
      have "\<forall>j < Suc k. item_id ((x # xs) ! j) \<noteq> i"
      proof (intro allI impI)
        fix j assume "j < Suc k"
        then show "item_id ((x # xs) ! j) \<noteq> i"
          using False k(4) by (cases j) auto
      qed
      with k show ?L by (intro exI[of _ "Suc k"]) simp
    qed
    with False Cons.IH show ?thesis by simp
  qed
qed

lemma get_item_loop_append:
  "get_item_loop (xs @ ys) i =
     (case get_item_loop xs i of None \<Rightarrow> get_item_loop ys i | Some item \<Rightarrow> Some item)"
  by (induction xs) auto

text \<open>
  C6. For an id that no item of the catalog carries, \<open>get_item_by_id\<close> returns \<open>None\<close>;
  for an id that some item carries, it returns an item of the catalog with that id. The
  lookup is a total function with no raising branch: it returns in both cases.
\<close>

theorem get_item_by_id_absent_or_found:
  "(i \<notin> item_id ` set (items m) \<longrightarrow> get_item_by_id m i = None) \<and>
   (i \<in> item_id ` set (items m) \<longrightarrow>
      (\<exists>item. get_item_by_id m i = Some item \<and> item_id item = i \<and> item \<in> set (items m)))"
proof (intro conjI impI)
  assume "i \<notin> item_id ` set (items m)"
  then show "get_item_by_id m i = None"
    by (simp add: get_item_by_id_def get_item_loop_None)
next
  assume "i \<in> item_id ` set (items m)"
  then have "get_item_loop (items m) i \<noteq> None"
    by (simp add: get_item_loop_None)
  then obtain item where found: "get_item_loop (items m) i = Some item"
    by blast
  from get_item_loop_Some [OF found] found
  show "\<exists>item. get_item_by_id m i = Some item \<and> item_id item = i \<and> item \<in> set (items m)"
    by (simp add: get_item_by_id_def)
qed

theorem get_item_by_id_absent_or_found_witness:
  "get_item_by_id example_menu 999 = None \<and>
   (\<exists>item. get_item_by_id example_menu 1 = Some item \<and> item_id item = 1
      \<and> item \<in> set (items example_menu))"
proof -
  have absent: "999 \<notin> item_id ` set (items example_menu)"
    by (simp add: example_menu_def menu_add_item_def Menu_init_def)
  have present: "1 \<in> item_id ` set (items example_menu)"
    by (simp add: example_menu_def menu_add_item_def Menu_init_def)
  from get_item_by_id_absent_or_found [of 999 example_menu] absent
    get_item_by_id_absent_or_found [of 1 example_menu] present
  show ?thesis by blast
qed

text \<open>
  C10. \<open>menu_add_item\<close> appends the item whatever the ids already in the catalog, so
  items of one id accumulate; an item found under an id is still the one found after a
  further item of that id is added; and the item found is the one at the first position
  of the list, that is the earliest inserted, that carries the id.
\<close>

theorem menu_add_item_keeps_duplicates_first_found:
  "items (menu_add_item m item) = items m @ [item] \<and>
   (get_item_by_id m (item_id item) = Some earlier \<longrightarrow>
      get_item_by_id (menu_add_item m item) (item_id item) = Some earlier) \<and>
   (get_item_by_id m i = Some found \<longleftrightarrow>
      (\<exists>k < length (items m). items m ! k = found \<and> item_id found = i \<and>
         (\<forall>j < k. item_id (items m ! j) \<noteq> i)))"
proof (intro conjI impI)
  show "items (menu_add_item m item) = items m @ [item]"
    by (simp add: menu_add_item_def)
next
  assume "get_item_by_id m (item_id item) = Some earlier"
  then show "get_item_by_id (menu_add_item m item) (item_id item) = Some earlier"
    by (simp add: get_item_by_id_def menu_add_item_def get_item_loop_append)
next
  show "get_item_by_id m i = Some found \<longleftrightarrow>
      (\<exists>k < length (items m). items m ! k = found \<and> item_id found = i \<and>
         (\<forall>j < k. item_id (items m ! j) \<noteq> i))"
    unfolding get_item_by_id_def by (rule get_item_loop_first)
qed

theorem menu_add_item_keeps_duplicates_first_found_witness:
  "items (menu_add_item example_menu (FoodItem 1 ''Toastie'' (binary64 4.00))) =
     [FoodItem 1 ''Chuna Sandwich'' (binary64 3.50), DrinkItem 2 ''Latte'' (binary64 2.80) (Some ''Medium''),
      FoodItem 1 ''Toastie'' (binary64 4.00)] \<and>
   get_item_by_id (menu_add_item example_menu (FoodItem 1 ''Toastie'' (binary64 4.00))) 1 =
     Some (FoodItem 1 ''Chuna Sandwich'' (binary64 3.50))"
proof -
  have before: "get_item_by_id example_menu (item_id (FoodItem 1 ''Toastie'' (binary64 4.00))) =
      Some (FoodItem 1 ''Chuna Sandwich'' (binary64 3.50))"
    by (simp add: get_item_by_id_def example_menu_def menu_add_item_def Menu_init_def)
  have contents: "items example_menu @ [FoodItem 1 ''Toastie'' (binary64 4.00)] =
      [FoodItem 1 ''Chuna Sandwich'' (binary64 3.50), DrinkItem 2 ''Latte'' (binary64 2.80) (Some ''Medium''),
       FoodItem 1 ''Toastie'' (binary64 4.00)]"
    by (simp add: example_menu_def menu_add_item_def Menu_init_def)
  from menu_add_item_keeps_duplicates_first_found
    [of example_menu "FoodItem 1 ''Toastie'' (binary64 4.00)" "FoodItem 1 ''Chuna Sandwich'' (binary64 3.50)"]
    before contents
  show ?thesis by simp
qed

section \<open>Notification\<close>

lemma update_effect:
  "update ob m w = w\<lparr>stdout := stdout w @ update_output ob m, calls := calls w @ [(ob, m)]\<rparr>"
  by (cases ob) (simp_all add: print_def)

lemma notify_loop_effect:
  "notify_loop obs m w =
     w\<lparr>stdout := stdout w @ concat (map (\<lambda>ob. update_output ob m) obs),
       calls := calls w @ map (\<lambda>ob. (ob, m)) obs\<rparr>"
  by (induction obs arbitrary: w) (simp_all add: update_effect)

lemma count_list_map_pair: "count_list (map (\<lambda>ob. (ob, m)) obs) (x, m) = count_list obs x"
  by (induction obs) auto

lemma distinct_count_one: "distinct xs \<Longrightarrow> x \<in> set xs \<Longrightarrow> count_list xs x = 1"
  by (induction xs) auto

lemma observers_foldl_attach: "observers (foldl attach self obs) = observers self @ obs"
  by (induction obs arbitrary: self) (simp_all add: attach_def)

text \<open>
  C9, as stated, fails: \<^verbatim>\<open>attach\<close> appends without looking for the observer in the
  list, so an observer attached two times is subscribed two times, and one call of
  \<^verbatim>\<open>notify\<close> invokes its \<^verbatim>\<open>update\<close> two times, not exactly once.
\<close>

theorem notify_once_per_observer_counterexample:
  "OrderObserver 0 \<in> set (observers twice_attached) \<and>
   calls (notify twice_attached ''Item added to order'' quiet_world) =
     [(OrderObserver 0, ''Item added to order''), (OrderObserver 0, ''Item added to order'')] \<and>
   count_list (calls (notify twice_attached ''Item added to order'' quiet_world))
     (OrderObserver 0, ''Item added to order'') \<noteq> 1"
  by (simp add: twice_attached_def attach_def new_Order_def notify_def quiet_world_def print_def)

text \<open>
  C9, amended. After the calls \<^verbatim>\<open>attach(ob)\<close> for the observers \<open>obs\<close>, in that
  order, on a subject, the subscription list is the one of before followed by \<open>obs\<close>.
  One call of \<^verbatim>\<open>notify(message)\<close> then invokes \<^verbatim>\<open>update(message)\<close> once for every
  entry of that list, in attach order, with no entry skipped, before it returns: the
  calls it adds to the log are the entries of the list, in order, each with the
  message; what it prints is what these calls print, and it reads nothing. An observer
  is invoked as many times as it stands in the list, that is as many times as it was
  attached, so exactly once when the list has no observer twice.
\<close>

theorem notify_once_per_subscription:
  "observers (foldl attach self obs) = observers self @ obs \<and>
   calls (notify (foldl attach self obs) message w) =
     calls w @ map (\<lambda>ob. (ob, message)) (observers self @ obs) \<and>
   stdout (notify (foldl attach self obs) message w) =
     stdout w @ concat (map (\<lambda>ob. update_output ob message) (observers self @ obs)) \<and>
   stdin (notify (foldl attach self obs) message w) = stdin w \<and>
   count_list (drop (length (calls w)) (calls (notify (foldl attach self obs) message w)))
       (ob, message) =
     count_list (observers self) ob + count_list obs ob \<and>
   (distinct (observers self @ obs) \<longrightarrow>
      (\<forall>ob \<in> set (observers self @ obs).
         count_list (drop (length (calls w)) (calls (notify (foldl attach self obs) message w)))
           (ob, message) = 1))"
proof -
  define subject where "subject = foldl attach self obs"
  have list: "observers subject = observers self @ obs"
    unfolding subject_def by (rule observers_foldl_attach)
  have eff: "notify subject message w =
     w\<lparr>stdout := stdout w @ concat (map (\<lambda>ob. update_output ob message) (observers self @ obs)),
       calls := calls w @ map (\<lambda>ob. (ob, message)) (observers self @ obs)\<rparr>"
    by (simp add: notify_def notify_loop_effect list)
  have cnt: "count_list (drop (length (calls w)) (calls (notify subject message w))) (x, message) =
     count_list (observers self @ obs) x" for x
    by (simp add: eff count_list_map_pair)
  have one: "count_list (observers self @ obs) x = 1"
    if "distinct (observers self @ obs)" "x \<in> set (observers self @ obs)" for x
    using that by (rule distinct_count_one)
  show ?thesis
    unfolding subject_def [symmetric]
    using list cnt one by (simp add: eff)
qed

theorem notify_once_per_subscription_witness:
  "observers (foldl attach (new_Order 1 (2025, 1, 1) ''Pending'') three_observers) =
     [OrderObserver 1, Observer 2, OrderObserver 3] \<and>
   calls (notify (foldl attach (new_Order 1 (2025, 1, 1) ''Pending'') three_observers)
            ''Item added to order'' quiet_world) =
     [(OrderObserver 1, ''Item added to order''), (Observer 2, ''Item added to order''),
      (OrderObserver 3, ''Item added to order'')] \<and>
   stdout (notify (foldl attach (new_Order 1 (2025, 1, 1) ''Pending'') three_observers)
            ''Item added to order'' quiet_world) =
     [Text ''[Notification] Item added to order'', Text ''[Notification] Item added to order''] \<and>
   count_list (calls (notify (foldl attach (new_Order 1 (2025, 1, 1) ''Pending'') three_observers)
            ''Item added to order'' quiet_world)) (Observer 2, ''Item added to order'') = 1"
proof -
  have none: "observers (new_Order 1 (2025, 1, 1) ''Pending'') = []"
    by (simp add: new_Order_def)
  have d: "distinct (observers (new_Order 1 (2025, 1, 1) ''Pending'') @ three_observers)"
    and m: "Observer 2 \<in> set (observers (new_Order 1 (2025, 1, 1) ''Pending'') @ three_observers)"
    by (simp_all add: none three_observers_def)
  from notify_once_per_subscription
    [of "new_Order 1 (2025, 1, 1) ''Pending''" three_observers "''Item added to order''"
      quiet_world "Observer 2"] d m
  show ?thesis
    by (simp add: none three_observers_def quiet_world_def)
qed

section \<open>Removing from an order\<close>

lemma py_getitem_in_range:
  "0 \<le> i \<Longrightarrow> i < int (length xs) \<Longrightarrow> py_getitem xs i = Inr (xs ! nat i)"
  by (simp add: py_getitem_def py_position_def)

lemma py_pop_in_range:
  "0 \<le> i \<Longrightarrow> i < int (length xs) \<Longrightarrow> py_pop xs i = Inr (take (nat i) xs @ drop (Suc (nat i)) xs)"
  by (simp add: py_pop_def py_position_def)

lemma notify_order_items [simp]: "notify (this\<lparr>order_items := ys\<rparr>) m w = notify this m w"
  by (simp add: notify_def)

lemma notify_order_status [simp]: "notify (this\<lparr>order_status := st\<rparr>) m w = notify this m w"
  by (simp add: notify_def)

lemma calls_notify:
  "calls (notify this m w) = calls w @ map (\<lambda>ob. (ob, m)) (observers this)"
  by (simp add: notify_def notify_loop_effect)

lemma remove_item_out_of_range:
  "list_number < 1 \<or> int (length (order_items (orders s self))) < list_number \<Longrightarrow>
   remove_item self list_number qty s = (Inr (), s)"
  by (auto simp: remove_item_def Let_def)

lemma remove_item_delete:
  assumes "1 \<le> list_number" "list_number \<le> int (length (order_items (orders s self)))"
    and "quantity (order_lines s (order_items (orders s self) ! nat (list_number - 1))) \<le> qty"
  shows "remove_item self list_number qty s =
    (Inr (),
     s\<lparr>orders := (orders s)
          (self := (orders s self)
             \<lparr>order_items := take (nat (list_number - 1)) (order_items (orders s self))
                  @ drop (Suc (nat (list_number - 1))) (order_items (orders s self))\<rparr>),
       world := notify (orders s self) ''Item has been removed from your order'' (world s)\<rparr>)"
  using assms by (simp add: remove_item_def Let_def py_getitem_in_range py_pop_in_range)

lemma remove_item_decrement:
  assumes "1 \<le> list_number" "list_number \<le> int (length (order_items (orders s self)))"
    and "qty < quantity (order_lines s (order_items (orders s self) ! nat (list_number - 1)))"
  shows "remove_item self list_number qty s =
    (Inr (),
     s\<lparr>order_lines := (order_lines s)
          (order_items (orders s self) ! nat (list_number - 1) :=
             (order_lines s (order_items (orders s self) ! nat (list_number - 1)))
               \<lparr>quantity :=
                  quantity (order_lines s (order_items (orders s self) ! nat (list_number - 1))) - qty\<rparr>),
       world := notify (orders s self) ''the item quantity has been updated'' (world s)\<rparr>)"
  using assms by (simp add: remove_item_def Let_def py_getitem_in_range py_pop_in_range)

text \<open>
  C3. At a position \<open>list_number\<close> between 1 and the number of lines, with \<open>k\<close> the
  index of that position and \<open>line\<close> the line object there. When \<open>qty\<close> is at least the
  quantity of the line, \<open>remove_item\<close> returns the state in which the list of the order
  is the old one without position \<open>k\<close>, one entry shorter, and every observer has been
  notified with \<^verbatim>\<open>Item has been removed from your order\<close>. When \<open>qty\<close> is less, it
  returns the state in which the quantity of that line object is \<open>qty\<close> less and every
  observer has been notified with \<^verbatim>\<open>the item quantity has been updated\<close>: the list of
  the order, hence the line count, is the old one. Nothing else in the state changes,
  and the call does not raise.
\<close>

theorem remove_item_in_range:
  assumes "1 \<le> list_number" and "list_number \<le> int (length (order_items (orders s self)))"
    and "k = nat (list_number - 1)" and "line = order_items (orders s self) ! k"
  shows "(quantity (order_lines s line) \<le> qty \<longrightarrow>
           remove_item self list_number qty s =
             (Inr (),
              s\<lparr>orders := (orders s)
                   (self := (orders s self)
                      \<lparr>order_items := take k (order_items (orders s self))
                           @ drop (Suc k) (order_items (orders s self))\<rparr>),
                world := notify (orders s self) ''Item has been removed from your order'' (world s)\<rparr>) \<and>
           length (take k (order_items (orders s self)) @ drop (Suc k) (order_items (orders s self))) + 1 =
             length (order_items (orders s self))) \<and>
         (qty < quantity (order_lines s line) \<longrightarrow>
           remove_item self list_number qty s =
             (Inr (),
              s\<lparr>order_lines := (order_lines s)
                   (line := (order_lines s line)\<lparr>quantity := quantity (order_lines s line) - qty\<rparr>),
                world := notify (orders s self) ''the item quantity has been updated'' (world s)\<rparr>)) \<and>
         calls (notify (orders s self) message (world s)) =
           calls (world s) @ map (\<lambda>ob. (ob, message)) (observers (orders s self))"
proof (intro conjI impI)
  have k: "k < length (order_items (orders s self))"
    using assms(1,2,3) by simp
  show "calls (notify (orders s self) message (world s)) =
           calls (world s) @ map (\<lambda>ob. (ob, message)) (observers (orders s self))"
    by (rule calls_notify)
  show "length (take k (order_items (orders s self)) @ drop (Suc k) (order_items (orders s self))) + 1 =
             length (order_items (orders s self))"
    using k by simp
  {
    assume "quantity (order_lines s line) \<le> qty"
    then show "remove_item self list_number qty s =
             (Inr (),
              s\<lparr>orders := (orders s)
                   (self := (orders s self)
                      \<lparr>order_items := take k (order_items (orders s self))
                           @ drop (Suc k) (order_items (orders s self))\<rparr>),
                world := notify (orders s self) ''Item has been removed from your order'' (world s)\<rparr>)"
      unfolding assms(3,4) using assms(1,2) by (intro remove_item_delete)
  }
  {
    assume "qty < quantity (order_lines s line)"
    then show "remove_item self list_number qty s =
             (Inr (),
              s\<lparr>order_lines := (order_lines s)
                   (line := (order_lines s line)\<lparr>quantity := quantity (order_lines s line) - qty\<rparr>),
                world := notify (orders s self) ''the item quantity has been updated'' (world s)\<rparr>)"
      unfolding assms(3,4) using assms(1,2) by (intro remove_item_decrement)
  }
qed

text \<open>
  On the order whose two positions hold one line object of three sandwiches: taking
  one leaves two at both positions, and taking three removes the first position only.
\<close>

theorem remove_item_in_range_witness:
  "map (\<lambda>line. quantity (order_lines (snd (remove_item 0 1 1 shared_state)) line))
       (order_items (orders (snd (remove_item 0 1 1 shared_state)) 0)) = [2, 2] \<and>
   calls (world (snd (remove_item 0 1 1 shared_state))) =
     [(OrderObserver 0, ''the item quantity has been updated'')] \<and>
   fst (remove_item 0 1 1 shared_state) = Inr () \<and>
   order_items (orders (snd (remove_item 0 1 3 shared_state)) 0) = [0] \<and>
   calls (world (snd (remove_item 0 1 3 shared_state))) =
     [(OrderObserver 0, ''Item has been removed from your order'')] \<and>
   fst (remove_item 0 1 3 shared_state) = Inr ()"
proof -
  have items: "order_items (orders shared_state 0) = [0, 0]"
    and obs: "observers (orders shared_state 0) = [OrderObserver 0]"
    and line: "order_lines shared_state 0 = line_of (Some sandwich) 3"
    and w: "world shared_state = quiet_world"
    by (simp_all add: shared_state_def one_order_def empty_state_def new_Order_def)
  have range: "(1::int) \<le> 1" "1 \<le> int (length (order_items (orders shared_state 0)))"
    "(0::nat) = nat (1 - 1)" "(0::nat) = order_items (orders shared_state 0) ! 0"
    by (simp_all add: items)
  from remove_item_in_range [OF range, of 1 "''the item quantity has been updated''"]
    remove_item_in_range [OF range, of 3 "''Item has been removed from your order''"]
  show ?thesis
    by (simp add: items obs line w line_of_def quiet_world_def)
qed

text \<open>
  C5. At a position below 1 or above the number of lines, \<open>remove_item\<close> returns without
  raising and leaves the whole state as it was: the order with its list of lines and
  its status, every line with its quantity, and the world (no call of \<^verbatim>\<open>update\<close>,
  nothing printed).
\<close>

theorem remove_item_out_of_range_noop:
  "list_number < 1 \<or> int (length (order_items (orders s self))) < list_number \<Longrightarrow>
   remove_item self list_number qty s = (Inr (), s)"
  by (auto simp: remove_item_def Let_def)

theorem remove_item_out_of_range_noop_witness:
  "remove_item 0 5 1 example_state = (Inr (), example_state) \<and>
   remove_item 0 0 1 example_state = (Inr (), example_state)"
proof -
  have len: "length (order_items (orders example_state 0)) = 1"
    by (simp add: example_state_def one_order_def empty_state_def new_Order_def)
  have "(5::int) < 1 \<or> int (length (order_items (orders example_state 0))) < 5"
    and "(0::int) < 1 \<or> int (length (order_items (orders example_state 0))) < 0"
    by (simp_all add: len)
  then show ?thesis
    using remove_item_out_of_range_noop [of 5 example_state 0 1]
      remove_item_out_of_range_noop [of 0 example_state 0 1]
    by simp
qed

text \<open>
  C8. After \<open>add_item\<close> the new line is the last one, so its position is the new number
  of lines. \<open>remove_item\<close> at that position with the quantity of the line returns
  without raising and leaves as many lines as before the addition: the list of lines
  is the one of before, and no line object has changed.
\<close>

theorem add_item_then_remove_item_restores_lines:
  "(case remove_item self (int (length (order_items (orders (add_item self line s) self))))
           (quantity (order_lines s line)) (add_item self line s) of
      (res, s2) \<Rightarrow>
        res = Inr () \<and>
        length (order_items (orders (add_item self line s) self)) =
          length (order_items (orders s self)) + 1 \<and>
        length (order_items (orders s2 self)) = length (order_items (orders s self)) \<and>
        order_items (orders s2 self) = order_items (orders s self) \<and>
        order_lines s2 = order_lines s)"
proof -
  define s1 where "s1 = add_item self line s"
  have items1: "order_items (orders s1 self) = order_items (orders s self) @ [line]"
    and lines1: "order_lines s1 = order_lines s"
    by (simp_all add: s1_def add_item_def Let_def)
  have k: "nat (int (length (order_items (orders s1 self))) - 1) = length (order_items (orders s self))"
    by (simp add: items1)
  have "remove_item self (int (length (order_items (orders s1 self)))) (quantity (order_lines s line)) s1 =
    (Inr (),
     s1\<lparr>orders := (orders s1)
          (self := (orders s1 self)
             \<lparr>order_items := take (nat (int (length (order_items (orders s1 self))) - 1))
                    (order_items (orders s1 self))
                  @ drop (Suc (nat (int (length (order_items (orders s1 self))) - 1)))
                      (order_items (orders s1 self))\<rparr>),
       world := notify (orders s1 self) ''Item has been removed from your order'' (world s1)\<rparr>)"
  proof (rule remove_item_delete)
    show "1 \<le> int (length (order_items (orders s1 self)))" by (simp add: items1)
    show "int (length (order_items (orders s1 self))) \<le> int (length (order_items (orders s1 self)))"
      by simp
    show "quantity (order_lines s1 (order_items (orders s1 self)
            ! nat (int (length (order_items (orders s1 self))) - 1))) \<le> quantity (order_lines s line)"
      unfolding k by (simp add: items1 lines1)
  qed
  then show ?thesis
    unfolding s1_def [symmetric] k by (simp add: items1 lines1)
qed

section \<open>The total of an order\<close>

lemma float_of_int_cases:
  "float_of_int n = Inl OverflowError \<or> (\<exists>x. float_of_int n = Inr (Finite x))"
  by (cases "binary64 (of_int n)") (simp_all add: float_of_int_def)

lemma get_line_total_value:
  assumes "menu_item line \<noteq> None" and "float_of_int (quantity line) \<noteq> Inl OverflowError"
  shows "get_line_total line = Inr (line_value line)"
proof -
  obtain m where m: "menu_item line = Some m" using assms(1) by blast
  obtain x where x: "float_of_int (quantity line) = Inr (Finite x)"
    using float_of_int_cases [of "quantity line"] assms(2) by blast
  show ?thesis
    by (simp add: get_line_total_def line_value_def m x)
qed

lemma line_totals_fault:
  "(\<exists>e. line_totals h xs = Inl e) \<longleftrightarrow> (\<exists>line \<in> set xs. \<exists>e. get_line_total (h line) = Inl e)"
proof (induction xs)
  case Nil
  then show ?case by simp
next
  case (Cons x xs)
  show ?case
  proof (cases "get_line_total (h x)")
    case (Inl e)
    then show ?thesis by auto
  next
    case (Inr v)
    with Cons.IH show ?thesis by (cases "line_totals h xs") auto
  qed
qed

lemma line_totals_values:
  assumes "\<forall>line \<in> set xs. menu_item (h line) \<noteq> None \<and>
             float_of_int (quantity (h line)) \<noteq> Inl OverflowError"
  shows "line_totals h xs = Inr (map (\<lambda>line. line_value (h line)) xs)"
  using assms by (induction xs) (simp_all add: get_line_total_value)

lemma binary64_tax: "binary64 (1 / 5) = Finite (3602879701896397 / 18014398509481984)"
  using binary64_nearest [of "-3" "1 / 5" 7205759403792794] by simp

lemma binary64_0_99: "binary64 (99 / 100) = Finite (4458563631096791 / 4503599627370496)"
  using binary64_nearest [of "-1" "99 / 100" 8917127262193582] by simp

lemma binary64_1_2: "binary64 (6 / 5) = Finite (5404319552844595 / 4503599627370496)"
  using binary64_nearest [of 0 "6 / 5" 5404319552844595] by simp

lemma binary64_3_5: "binary64 (7 / 2) = Finite (7 / 2)"
  using binary64_nearest [of 1 "7 / 2" 7881299347898368] by simp

lemma binary64_8_4: "binary64 (42 / 5) = Finite (4728779608739021 / 562949953421312)"
  using binary64_nearest [of 3 "42 / 5" 4728779608739021] by simp

lemma binary64_1_19: "binary64 (119 / 100) = Finite (2679641778285445 / 2251799813685248)"
  using binary64_nearest [of 0 "119 / 100" 5359283556570890] by simp

lemma binary64_1: "binary64 1 = Finite 1"
  using binary64_nearest [of 0 "1" 4503599627370496] by simp

lemma binary64_2: "binary64 2 = Finite 2"
  using binary64_nearest [of 1 "2" 4503599627370496] by simp

lemma binary64_3: "binary64 3 = Finite 3"
  using binary64_nearest [of 1 "3" 6755399441055744] by simp

lemma binary64_7: "binary64 7 = Finite 7"
  using binary64_nearest [of 2 "7" 7881299347898368] by simp

lemma binary64_10: "binary64 10 = Finite 10"
  using binary64_nearest [of 3 "10" 5629499534213120] by simp

lemma binary64_12: "binary64 12 = Finite 12"
  using binary64_nearest [of 3 "12" 6755399441055744] by simp

lemma binary64_cookie: "binary64 (4458563631096791 / 4503599627370496) = Finite (4458563631096791 / 4503599627370496)"
  using binary64_nearest [of "-1" "4458563631096791 / 4503599627370496" 8917127262193582] by simp

lemma binary64_cookie_tax: "binary64 (16063668406092123723363761162027 / 81129638414606681695789005144064) = Finite (3566850904877433 / 18014398509481984)"
  using binary64_nearest [of "-3" "16063668406092123723363761162027 / 81129638414606681695789005144064" 7133701809754866] by simp

lemma binary64_cookie_total: "binary64 (21401105429264597 / 18014398509481984) = Finite (5350276357316149 / 4503599627370496)"
  using binary64_nearest [of 0 "21401105429264597 / 18014398509481984" 5350276357316149] by simp

lemma binary64_cookie_spec: "binary64 (24095502609138183355763826194645 / 20282409603651670423947251286016) = Finite (5350276357316149 / 4503599627370496)"
  using binary64_nearest [of 0 "24095502609138183355763826194645 / 20282409603651670423947251286016" 5350276357316149] by simp

lemma binary64_7_tax: "binary64 (25220157913274779 / 18014398509481984) = Finite (6305039478318695 / 4503599627370496)"
  using binary64_nearest [of 0 "25220157913274779 / 18014398509481984" 6305039478318695] by simp

lemma binary64_7_total: "binary64 (37830236869912167 / 4503599627370496) = Finite (4728779608739021 / 562949953421312)"
  using binary64_nearest [of 3 "37830236869912167 / 4503599627370496" 4728779608739021] by simp

lemma binary64_10_tax: "binary64 (18014398509481985 / 9007199254740992) = Finite 2"
  using binary64_nearest [of 1 "18014398509481985 / 9007199254740992" 4503599627370496] by simp

lemma binary64_0: "binary64 0 = Finite 0"
  by (simp add: binary64_def)

lemma round_half_even_cookie: "round_half_even (133756908932903725 / 1125899906842624) = 119"
  by (rule round_half_even_nearest) simp

lemma float_of_int_huge: "float_of_int huge_quantity = Inl OverflowError"
proof -
  have "binary64 (of_int huge_quantity) = Infinity False"
    by (rule binary64_overflow) (simp add: huge_quantity_def)
  then show ?thesis by (simp add: float_of_int_def)
qed

lemmas one_order_defs = one_order_def empty_state_def line_of_def new_Order_def quiet_world_def

text \<open>
  C1, as stated, fails: \<open>get_total\<close> returns the subtotal plus the tax and rounds
  nowhere. One cookie at 0.99 gives the float 1.188, and the rounded total of the claim
  is the float 1.19.
\<close>

theorem get_total_rounded_counterexample:
  "fst (get_total left_to_right 0 cookie_state) =
     Inr (Finite (5350276357316149 / 4503599627370496)) \<and>
   spec_total left_to_right 0 cookie_state = Finite (2679641778285445 / 2251799813685248) \<and>
   \<not> py_eq (Finite (5350276357316149 / 4503599627370496))
           (Finite (2679641778285445 / 2251799813685248))"
proof -
  have code: "fst (get_total left_to_right 0 cookie_state) =
      Inr (Finite (5350276357316149 / 4503599627370496))"
    by (simp add: get_total_def cookie_state_def one_order_defs cookie_def
        get_line_total_def float_of_int_def py_sum_def TAX_RATE_def
        binary64_tax binary64_0_99 binary64_1 binary64_cookie binary64_cookie_tax
        binary64_cookie_total)
  have spec: "spec_total left_to_right 0 cookie_state =
      Finite (2679641778285445 / 2251799813685248)"
    by (simp add: spec_total_def cookie_state_def one_order_defs cookie_def
        line_value_def float_of_int_def py_sum_def
        binary64_1_2 binary64_0_99 binary64_1 binary64_cookie binary64_cookie_spec
        round_half_even_cookie binary64_1_19)
  from code spec show ?thesis by simp
qed

text \<open>
  C1, amended. For an order whose lines all refer to a menu item and have a quantity
  that converts to a float, \<open>get_total\<close> returns \<^verbatim>\<open>s + s * 0.20\<close> in float arithmetic,
  where \<open>s\<close> is Python's \<^verbatim>\<open>sum\<close> of the products price times quantity of the current
  lines, in their order; nothing is rounded to two decimals and nothing is printed.
  For an order with no line it returns the float 0.0.
\<close>

theorem get_total_unrounded:
  "((\<forall>line \<in> set (order_items (orders s self)).
        menu_item (order_lines s line) \<noteq> None \<and>
        float_of_int (quantity (order_lines s line)) \<noteq> Inl OverflowError) \<longrightarrow>
      get_total accumulate self s =
        (Inr (fadd (py_sum accumulate (map (\<lambda>line. line_value (order_lines s line))
                                        (order_items (orders s self))))
                 (fmul (py_sum accumulate (map (\<lambda>line. line_value (order_lines s line))
                                            (order_items (orders s self))))
                    (binary64 0.20))), s)) \<and>
   (order_items (orders s self) = [] \<longrightarrow> get_total accumulate self s = (Inr (Finite 0), s))"
proof (intro conjI impI)
  assume "\<forall>line \<in> set (order_items (orders s self)).
        menu_item (order_lines s line) \<noteq> None \<and>
        float_of_int (quantity (order_lines s line)) \<noteq> Inl OverflowError"
  then have "line_totals (order_lines s) (order_items (orders s self)) =
     Inr (map (\<lambda>line. line_value (order_lines s line)) (order_items (orders s self)))"
    by (rule line_totals_values)
  then show "get_total accumulate self s =
        (Inr (fadd (py_sum accumulate (map (\<lambda>line. line_value (order_lines s line))
                                        (order_items (orders s self))))
                 (fmul (py_sum accumulate (map (\<lambda>line. line_value (order_lines s line))
                                            (order_items (orders s self))))
                    (binary64 0.20))), s)"
    by (simp add: get_total_def TAX_RATE_def Let_def)
next
  assume "order_items (orders s self) = []"
  then show "get_total accumulate self s = (Inr (Finite 0), s)"
    by (simp add: get_total_def TAX_RATE_def py_sum_def binary64_tax binary64_0)
qed

text \<open>
  The order of the unit test: two sandwiches at 3.50 give the float 8.4, which is
  \<^verbatim>\<open>3.50 * 2 + 3.50 * 2 * 0.20\<close>, and an order with no line gives 0.0.
\<close>

theorem get_total_unrounded_witness:
  "get_total left_to_right 0 test_state = (Inr (binary64 8.40), test_state) \<and>
   get_total left_to_right 0 empty_state = (Inr (Finite 0), empty_state)"
proof -
  have items: "order_items (orders test_state 0) = [0]"
    and line: "order_lines test_state 0 = line_of (Some sandwich) 2"
    by (simp_all add: test_state_def one_order_defs)
  have two: "float_of_int 2 = Inr (Finite 2)"
    by (simp add: float_of_int_def binary64_2)
  have wf: "\<forall>line \<in> set (order_items (orders test_state 0)).
        menu_item (order_lines test_state line) \<noteq> None \<and>
        float_of_int (quantity (order_lines test_state line)) \<noteq> Inl OverflowError"
    by (simp add: items line line_of_def two)
  have empty: "order_items (orders empty_state 0) = []"
    by (simp add: empty_state_def new_Order_def)
  from get_total_unrounded [of test_state 0 left_to_right] wf
    get_total_unrounded [of empty_state 0 left_to_right] empty
  show ?thesis
    by (simp add: items line line_of_def line_value_def sandwich_def two py_sum_def
        binary64_0 binary64_tax binary64_3_5 binary64_7 binary64_7_tax binary64_7_total
        binary64_8_4)
qed

text \<open>
  C7. \<open>get_total\<close> returns a value for every order, in every state, and never raises;
  when the product of some line faults, the value is 0.0 and the failure is printed.
\<close>

theorem get_total_never_raises:
  "(\<exists>t. fst (get_total accumulate self s) = Inr t) \<and>
   ((\<exists>line \<in> set (order_items (orders s self)). \<exists>e. get_line_total (order_lines s line) = Inl e) \<longrightarrow>
      fst (get_total accumulate self s) = Inr (Finite 0) \<and>
      (\<exists>e. snd (get_total accumulate self s) = s\<lparr>world := print (Total_error e) (world s)\<rparr>))"
proof (cases "line_totals (order_lines s) (order_items (orders s self))")
  case (Inl e)
  then show ?thesis by (auto simp: get_total_def)
next
  case (Inr v)
  have "\<not> (\<exists>line \<in> set (order_items (orders s self)). \<exists>e. get_line_total (order_lines s line) = Inl e)"
    using line_totals_fault [of "order_lines s" "order_items (orders s self)"] Inr by simp
  with Inr show ?thesis by (simp add: get_total_def Let_def)
qed

text \<open>A line without a menu item, after a good line, and a quantity too large for a float.\<close>

theorem get_total_never_raises_witness:
  "get_line_total (order_lines faulty_state 1) = Inl AttributeError \<and>
   fst (get_total left_to_right 0 faulty_state) = Inr (Finite 0) \<and>
   get_line_total (order_lines huge_state 0) = Inl OverflowError \<and>
   fst (get_total left_to_right 0 huge_state) = Inr (Finite 0)"
proof -
  have fault: "get_line_total (order_lines faulty_state 1) = Inl AttributeError"
    by (simp add: faulty_state_def one_order_defs get_line_total_def)
  have "1 \<in> set (order_items (orders faulty_state 0))"
    by (simp add: faulty_state_def one_order_defs)
  with fault have f: "\<exists>line \<in> set (order_items (orders faulty_state 0)).
      \<exists>e. get_line_total (order_lines faulty_state line) = Inl e"
    by blast
  have huge: "get_line_total (order_lines huge_state 0) = Inl OverflowError"
    by (simp add: huge_state_def one_order_defs get_line_total_def sandwich_def float_of_int_huge)
  have "0 \<in> set (order_items (orders huge_state 0))"
    by (simp add: huge_state_def one_order_defs)
  with huge have h: "\<exists>line \<in> set (order_items (orders huge_state 0)).
      \<exists>e. get_line_total (order_lines huge_state line) = Inl e"
    by blast
  from get_total_never_raises [of left_to_right 0 faulty_state] f
    get_total_never_raises [of left_to_right 0 huge_state] h fault huge
  show ?thesis by blast
qed

section \<open>The bill\<close>

lemma get_total_returns: "\<exists>t s'. get_total accumulate r s = (Inr t, s') \<and> bills s' = bills s"
  by (cases "line_totals (order_lines s) (order_items (orders s r))")
    (simp_all add: get_total_def Let_def)

lemma remove_item_returns:
  "fst (remove_item self list_number qty s) = Inr () \<and>
   bills (snd (remove_item self list_number qty s)) = bills s"
proof (cases "1 \<le> list_number \<and> list_number \<le> int (length (order_items (orders s self)))")
  case True
  then show ?thesis
    by (cases "quantity (order_lines s (order_items (orders s self) ! nat (list_number - 1))) \<le> qty")
      (simp_all add: remove_item_delete remove_item_decrement)
next
  case False
  then have "list_number < 1 \<or> int (length (order_items (orders s self))) < list_number"
    by auto
  then show ?thesis
    by (simp add: remove_item_out_of_range)
qed

lemma mutate_bills: "fst (mutate m s) = Inr () \<and> bills (snd (mutate m s)) = bills s"
  by (cases m)
    (simp_all add: remove_item_returns OrderItem_init_def add_item_def update_order_status_def Let_def)

lemma mutate_all_bills: "fst (mutate_all ms s) = Inr () \<and> bills (snd (mutate_all ms s)) = bills s"
proof (induction ms arbitrary: s)
  case Nil
  then show ?case by simp
next
  case (Cons m ms)
  obtain s' where s': "mutate m s = (Inr (), s')" and b: "bills s' = bills s"
    using mutate_bills [of m s] by (cases "mutate m s") auto
  from Cons.IH [of s'] s' b show ?case by simp
qed

text \<open>
  C2. \<open>Bill_init\<close> stores in \<open>bill_total\<close> the value that \<open>get_total\<close> returns for the
  order at that moment. Whatever calls of \<open>attach\<close>, \<open>add_item\<close>, \<open>remove_item\<close> and
  \<open>update_order_status\<close> and whatever new lines follow, on the source order or on
  another one, they all return and the bill still holds that value: no call on an
  order or on a line writes to a bill.
\<close>

theorem bill_total_frozen:
  "\<exists>t. fst (get_total accumulate r s) = Inr t \<and>
       fst (Bill_init accumulate b bid r s) = Inr () \<and>
       bill_total (bills (snd (Bill_init accumulate b bid r s)) b) = t \<and>
       fst (mutate_all ms (snd (Bill_init accumulate b bid r s))) = Inr () \<and>
       bill_total (bills (snd (mutate_all ms (snd (Bill_init accumulate b bid r s)))) b) = t"
proof -
  obtain t s' where t: "get_total accumulate r s = (Inr t, s')"
    using get_total_returns by blast
  then have init: "Bill_init accumulate b bid r s =
     (Inr (), s'\<lparr>bills := (bills s')(b := \<lparr>bill_id = bid, order = r, bill_total = t\<rparr>)\<rparr>)"
    by (simp add: Bill_init_def)
  have "fst (get_total accumulate r s) = Inr t"
    by (simp add: t)
  moreover have "bill_total (bills (snd (Bill_init accumulate b bid r s)) b) = t"
    by (simp add: init)
  ultimately show ?thesis
    using mutate_all_bills [of ms "snd (Bill_init accumulate b bid r s)"] init by auto
qed

text \<open>
  The scenario of the specification: the bill of an order of total 8.40 keeps 8.40 when
  a further line takes the order to 12.00.
\<close>

theorem bill_total_frozen_witness:
  "fst (get_total left_to_right 0 test_state) = Inr (binary64 8.40) \<and>
   bill_total (bills (snd (mutate_all add_cake (snd (Bill_init left_to_right 1 1 0 test_state)))) 1) =
     binary64 8.40 \<and>
   fst (get_total left_to_right 0
          (snd (mutate_all add_cake (snd (Bill_init left_to_right 1 1 0 test_state))))) =
     Inr (binary64 12.00)"
proof -
  have two: "float_of_int 2 = Inr (Finite 2)" and one: "float_of_int 1 = Inr (Finite 1)"
    by (simp_all add: float_of_int_def binary64_2 binary64_1)
  have before: "get_total left_to_right 0 test_state = (Inr (binary64 8.40), test_state)"
    by (simp add: get_total_def test_state_def one_order_defs get_line_total_def sandwich_def
        two py_sum_def TAX_RATE_def
        binary64_tax binary64_3_5 binary64_7 binary64_7_tax binary64_7_total binary64_8_4)
  have after: "fst (get_total left_to_right 0
          (snd (mutate_all add_cake (snd (Bill_init left_to_right 1 1 0 test_state))))) =
     Inr (binary64 12.00)"
    by (simp add: Bill_init_def before add_cake_def OrderItem_init_def add_item_def Let_def)
      (simp add: get_total_def test_state_def one_order_defs get_line_total_def sandwich_def
        cake_def two one py_sum_def left_to_right_def TAX_RATE_def
        binary64_tax binary64_3_5 binary64_3 binary64_7 binary64_10 binary64_10_tax binary64_12)
  from bill_total_frozen [of left_to_right 0 test_state 1 1 add_cake] before after
  show ?thesis by auto
qed

section \<open>Payment\<close>

lemma upper_Cash_Card: "upper ''Cash'' = ''CASH''" "upper ''Card'' = ''CARD''"
  by (simp_all add: upper_def upper_char_def)

lemma cash_or_card_iff: "cash_or_card m \<longleftrightarrow> upper m \<in> set [''CASH'', ''CARD'']"
  by (simp add: cash_or_card_def caseless_eq_def upper_Cash_Card)

lemma payment_method_loop_valid:
  "cash_or_card (payment_method self) \<Longrightarrow> payment_method_loop self w = (Inr (), self, w)"
  using cash_or_card_iff [of "payment_method self"]
  by (subst payment_method_loop.simps) simp

lemma payment_method_loop_retry:
  assumes "\<not> cash_or_card (payment_method self)" and "stdin w = line # rest"
  shows "payment_method_loop self w =
     payment_method_loop (self\<lparr>payment_method := line\<rparr>)
       (w\<lparr>stdout := stdout w @ [Prompt method_prompt], stdin := rest\<rparr>)"
  using assms cash_or_card_iff [of "payment_method self"]
  by (subst payment_method_loop.simps) (simp add: input_def print_def Let_def)

lemma payment_method_loop_eof:
  assumes "\<not> cash_or_card (payment_method self)" and "stdin w = []"
  shows "payment_method_loop self w =
     (Inl EOFError, self, w\<lparr>stdout := stdout w @ [Prompt method_prompt]\<rparr>)"
  using assms cash_or_card_iff [of "payment_method self"]
  by (subst payment_method_loop.simps) (simp add: input_def print_def Let_def)

lemma payment_method_loop_corrected:
  assumes "\<not> cash_or_card (payment_method self)" and "stdin w = bad @ good # rest"
    and "\<forall>l \<in> set bad. \<not> cash_or_card l" and "cash_or_card good"
  shows "payment_method_loop self w =
     (Inr (), self\<lparr>payment_method := good\<rparr>,
      w\<lparr>stdout := stdout w @ replicate (Suc (length bad)) (Prompt method_prompt), stdin := rest\<rparr>)"
  using assms
proof (induction bad arbitrary: self w)
  case Nil
  then show ?case
    by (simp add: payment_method_loop_retry payment_method_loop_valid)
next
  case (Cons l bad)
  have "payment_method_loop self w =
     payment_method_loop (self\<lparr>payment_method := l\<rparr>)
       (w\<lparr>stdout := stdout w @ [Prompt method_prompt], stdin := bad @ good # rest\<rparr>)"
    using Cons.prems by (simp add: payment_method_loop_retry)
  also have "\<dots> = (Inr (), self\<lparr>payment_method := good\<rparr>,
      w\<lparr>stdout := (stdout w @ [Prompt method_prompt])
           @ replicate (Suc (length bad)) (Prompt method_prompt), stdin := rest\<rparr>)"
    using Cons.prems by (subst Cons.IH) simp_all
  finally show ?case
    by (simp add: replicate_append_same)
qed

lemma payment_method_loop_exhausted:
  assumes "\<not> cash_or_card (payment_method self)" and "\<forall>l \<in> set (stdin w). \<not> cash_or_card l"
  shows "fst (payment_method_loop self w) = Inl EOFError"
  using assms
proof (induction "stdin w" arbitrary: self w)
  case Nil
  then show ?case
    by (simp add: payment_method_loop_eof)
next
  case (Cons l ls)
  from Cons.hyps(2) have st: "stdin w = l # ls" by simp
  have "payment_method_loop self w =
     payment_method_loop (self\<lparr>payment_method := l\<rparr>)
       (w\<lparr>stdout := stdout w @ [Prompt method_prompt], stdin := ls\<rparr>)"
    using Cons.prems(1) st by (rule payment_method_loop_retry)
  moreover have "fst (payment_method_loop (self\<lparr>payment_method := l\<rparr>)
       (w\<lparr>stdout := stdout w @ [Prompt method_prompt], stdin := ls\<rparr>)) = Inl EOFError"
    using Cons.prems st by (intro Cons.hyps(1)) simp_all
  ultimately show ?case by simp
qed

text \<open>
  C4, as stated, fails in its last part: with a positive amount and a method that is
  neither \<^verbatim>\<open>Cash\<close> nor \<^verbatim>\<open>Card\<close>, \<open>process_payment\<close> reports nothing to its caller. It
  prompts, reads the answer \<^verbatim>\<open>Cash\<close> into the payment, confirms the payment and
  returns as it does for a valid method.
\<close>

theorem process_payment_invalid_method_counterexample:
  "0 < payment_amount bitcoin_payment \<and>
   \<not> cash_or_card (payment_method bitcoin_payment) \<and>
   process_payment bitcoin_payment (quiet_world\<lparr>stdin := [''Cash'']\<rparr>) =
     (Inr (), bitcoin_payment\<lparr>payment_method := ''Cash''\<rparr>,
      \<lparr>stdin = [], stdout = [Prompt method_prompt, Payment_received 5 ''Cash''], calls = []\<rparr>)"
proof -
  have bad: "\<not> cash_or_card (payment_method bitcoin_payment)"
    by (simp add: cash_or_card_iff bitcoin_payment_def upper_def upper_char_def)
  have good: "cash_or_card ''Cash''"
    by (simp add: cash_or_card_iff upper_Cash_Card)
  have "payment_method_loop bitcoin_payment (quiet_world\<lparr>stdin := [''Cash'']\<rparr>) =
     (Inr (), bitcoin_payment\<lparr>payment_method := ''Cash''\<rparr>,
      \<lparr>stdin = [], stdout = [Prompt method_prompt], calls = []\<rparr>)"
    using bad good
    by (simp add: payment_method_loop_retry [where line = "''Cash''" and rest = "[]"]
        payment_method_loop_valid quiet_world_def)
  then show ?thesis
    using bad by (simp add: process_payment_def bitcoin_payment_def print_def)
qed

text \<open>
  C4, amended. With an amount of 0 or less, \<open>process_payment\<close> prints that the amount
  is invalid and returns: no confirmation, the payment unchanged, nothing read. With a
  positive amount and a method that is \<^verbatim>\<open>Cash\<close> or \<^verbatim>\<open>Card\<close> in any case, it confirms
  the payment and returns, the payment unchanged. With a positive amount and any other
  method it does not report to the caller: it prompts and replaces the method by the
  next line of input, again and again until the method is valid, and then confirms the
  payment with that method; if the input ends first, \<^verbatim>\<open>input\<close> raises \<^verbatim>\<open>EOFError\<close>.
\<close>

theorem process_payment_cases:
  "(payment_amount self \<le> 0 \<longrightarrow>
      process_payment self w =
        (Inr (), self, print (Text ''Invalid payment amount. Cannot process payment.'') w)) \<and>
   (0 < payment_amount self \<and> cash_or_card (payment_method self) \<longrightarrow>
      process_payment self w =
        (Inr (), self, print (Payment_received (payment_amount self) (payment_method self)) w)) \<and>
   (0 < payment_amount self \<and> \<not> cash_or_card (payment_method self) \<and>
    stdin w = bad @ good # rest \<and> (\<forall>l \<in> set bad. \<not> cash_or_card l) \<and> cash_or_card good \<longrightarrow>
      process_payment self w =
        (Inr (), self\<lparr>payment_method := good\<rparr>,
         w\<lparr>stdout := stdout w @ replicate (Suc (length bad)) (Prompt method_prompt)
                       @ [Payment_received (payment_amount self) good],
           stdin := rest\<rparr>)) \<and>
   (0 < payment_amount self \<and> \<not> cash_or_card (payment_method self) \<and>
    (\<forall>l \<in> set (stdin w). \<not> cash_or_card l) \<longrightarrow>
      fst (process_payment self w) = Inl EOFError)"
proof (intro conjI impI)
  assume "payment_amount self \<le> 0"
  then show "process_payment self w =
        (Inr (), self, print (Text ''Invalid payment amount. Cannot process payment.'') w)"
    by (simp add: process_payment_def)
next
  assume "0 < payment_amount self \<and> cash_or_card (payment_method self)"
  then show "process_payment self w =
        (Inr (), self, print (Payment_received (payment_amount self) (payment_method self)) w)"
    by (simp add: process_payment_def payment_method_loop_valid)
next
  assume a: "0 < payment_amount self \<and> \<not> cash_or_card (payment_method self) \<and>
    stdin w = bad @ good # rest \<and> (\<forall>l \<in> set bad. \<not> cash_or_card l) \<and> cash_or_card good"
  then have "payment_method_loop self w =
     (Inr (), self\<lparr>payment_method := good\<rparr>,
      w\<lparr>stdout := stdout w @ replicate (Suc (length bad)) (Prompt method_prompt), stdin := rest\<rparr>)"
    by (intro payment_method_loop_corrected) simp_all
  with a show "process_payment self w =
        (Inr (), self\<lparr>payment_method := good\<rparr>,
         w\<lparr>stdout := stdout w @ replicate (Suc (length bad)) (Prompt method_prompt)
                       @ [Payment_received (payment_amount self) good],
           stdin := rest\<rparr>)"
    by (simp add: process_payment_def print_def)
next
  assume a: "0 < payment_amount self \<and> \<not> cash_or_card (payment_method self) \<and>
    (\<forall>l \<in> set (stdin w). \<not> cash_or_card l)"
  then have "fst (payment_method_loop self w) = Inl EOFError"
    by (intro payment_method_loop_exhausted) simp_all
  with a show "fst (process_payment self w) = Inl EOFError"
    by (cases "payment_method_loop self w") (simp add: process_payment_def)
qed

theorem process_payment_cases_witness:
  "process_payment zero_payment quiet_world =
     (Inr (), zero_payment,
      \<lparr>stdin = [], stdout = [Text ''Invalid payment amount. Cannot process payment.''], calls = []\<rparr>) \<and>
   process_payment cash_payment quiet_world =
     (Inr (), cash_payment, \<lparr>stdin = [], stdout = [Payment_received 5 ''cash''], calls = []\<rparr>) \<and>
   process_payment bitcoin_payment (quiet_world\<lparr>stdin := [''paypal'', ''Card'', ''left'']\<rparr>) =
     (Inr (), bitcoin_payment\<lparr>payment_method := ''Card''\<rparr>,
      \<lparr>stdin = [''left''],
       stdout = [Prompt method_prompt, Prompt method_prompt, Payment_received 5 ''Card''],
       calls = []\<rparr>) \<and>
   fst (process_payment bitcoin_payment (quiet_world\<lparr>stdin := [''paypal'']\<rparr>)) = Inl EOFError"
proof -
  have zero: "payment_amount zero_payment \<le> 0"
    by (simp add: zero_payment_def)
  have cash: "0 < payment_amount cash_payment \<and> cash_or_card (payment_method cash_payment)"
    by (simp add: cash_payment_def cash_or_card_iff upper_def upper_char_def)
  have paypal: "\<not> cash_or_card ''paypal''"
    by (simp add: cash_or_card_iff upper_def upper_char_def)
  have card: "cash_or_card ''Card''"
    by (simp add: cash_or_card_iff upper_Cash_Card)
  have bitcoin: "0 < payment_amount bitcoin_payment" "\<not> cash_or_card (payment_method bitcoin_payment)"
    by (simp_all add: bitcoin_payment_def cash_or_card_iff upper_def upper_char_def)
  have retry: "0 < payment_amount bitcoin_payment \<and> \<not> cash_or_card (payment_method bitcoin_payment) \<and>
    stdin (quiet_world\<lparr>stdin := [''paypal'', ''Card'', ''left'']\<rparr>) = [''paypal''] @ ''Card'' # [''left''] \<and>
    (\<forall>l \<in> set [''paypal'']. \<not> cash_or_card l) \<and> cash_or_card ''Card''"
    using bitcoin paypal card by simp
  have eof: "0 < payment_amount bitcoin_payment \<and> \<not> cash_or_card (payment_method bitcoin_payment) \<and>
    (\<forall>l \<in> set (stdin (quiet_world\<lparr>stdin := [''paypal'']\<rparr>)). \<not> cash_or_card l)"
    using bitcoin paypal by simp
  from process_payment_cases [of zero_payment quiet_world] zero
    process_payment_cases [of cash_payment quiet_world] cash
    process_payment_cases [of bitcoin_payment "quiet_world\<lparr>stdin := [''paypal'', ''Card'', ''left'']\<rparr>"
      "[''paypal'']" "''Card''" "[''left'']"] retry
    process_payment_cases [of bitcoin_payment "quiet_world\<lparr>stdin := [''paypal'']\<rparr>"] eof
  show ?thesis
    by (simp add: print_def quiet_world_def cash_payment_def bitcoin_payment_def)
qed

end
